theory Spec2Isabelle
  imports Complex_Main
begin

section \<open>Data model\<close>

text \<open>
  The verified program is the microplastic detector: a client page
  (\<^verbatim>\<open>MicroplasticDetectorApp\<close>), the server route \<^verbatim>\<open>analyze-particles\<close>
  and the annotation helper \<^verbatim>\<open>createAnnotatedImage\<close>.

  JavaScript numbers are modelled as \<^typ>\<open>real\<close>: arithmetic is exact, and there is
  no NaN, no infinity and no rounding. Array positions are \<^typ>\<open>nat\<close>.
  Strings are \<^typ>\<open>string\<close>.
\<close>

text \<open>
  \<^verbatim>\<open>interface BoundingBox { x; y; width; height; confidence; class }\<close> of
  \<^verbatim>\<open>src/types/index.ts\<close>. The fields \<^verbatim>\<open>x\<close>, \<^verbatim>\<open>y\<close> and \<^verbatim>\<open>class\<close> are
  renamed: a record field is a global constant, and \<^verbatim>\<open>class\<close> is a keyword.
\<close>

record BoundingBox =
  center_x :: real
  center_y :: real
  width :: real
  height :: real
  confidence :: real
  class_label :: string

text \<open>
  \<^verbatim>\<open>interface AnalyzedParticle extends BoundingBox { index; analysis }\<close>. The type of the
  analysis is a parameter: the server route handles it as an untyped decoded value, the
  client at the declared type \<^verbatim>\<open>ParticleAnalysis | null\<close>.
\<close>

record 'a AnalyzedParticle = BoundingBox +
  index :: nat
  analysis :: 'a

text \<open>The object spread \<^verbatim>\<open>{ ...box, index: i, analysis: a }\<close>.\<close>

definition spread_box :: "BoundingBox \<Rightarrow> nat \<Rightarrow> 'a \<Rightarrow> 'a AnalyzedParticle" where
  "spread_box b i a =
     \<lparr>center_x = center_x b, center_y = center_y b, width = width b, height = height b,
      confidence = confidence b, class_label = class_label b, index = i, analysis = a\<rparr>"

text \<open>The geometry part of a particle: its fields without \<^verbatim>\<open>index\<close> and \<^verbatim>\<open>analysis\<close>.\<close>

definition box_of :: "'a AnalyzedParticle \<Rightarrow> BoundingBox" where
  "box_of p =
     \<lparr>center_x = center_x p, center_y = center_y p, width = width p, height = height p,
      confidence = confidence p, class_label = class_label p\<rparr>"

text \<open>
  Values decoded from JSON, and \<^verbatim>\<open>undefined\<close> for a property that is absent. An object
  is the list of its own properties (after decoding, keys are distinct).
\<close>

datatype jsval =
    JUndefined
  | JNull
  | JBool bool
  | JNum real
  | JStr string
  | JArr "jsval list"
  | JObj "(string \<times> jsval) list"

text \<open>JavaScript truthiness: what \<^verbatim>\<open>item && ...\<close> and \<^verbatim>\<open>!v\<close> test.\<close>

fun truthy :: "jsval \<Rightarrow> bool" where
  "truthy JUndefined = False"
| "truthy JNull = False"
| "truthy (JBool b) = b"
| "truthy (JNum r) = (r \<noteq> 0)"
| "truthy (JStr s) = (s \<noteq> [])"
| "truthy (JArr vs) = True"
| "truthy (JObj kvs) = True"

text \<open>
  Property access \<^verbatim>\<open>v.k\<close> on a truthy value, for the keys the program reads
  (\<^verbatim>\<open>index\<close>, \<^verbatim>\<open>analysis\<close>, \<^verbatim>\<open>x\<close>, ...): an object yields its own property, every
  other value \<^verbatim>\<open>undefined\<close> (none of these keys is a built-in property of a string,
  number, boolean or decoded array).
\<close>

fun get_prop :: "jsval \<Rightarrow> string \<Rightarrow> jsval" where
  "get_prop (JObj kvs) k = (case map_of kvs k of Some v \<Rightarrow> v | None \<Rightarrow> JUndefined)"
| "get_prop v k = JUndefined"

text \<open>\<^verbatim>\<open>typeof v === 'number'\<close> and \<^verbatim>\<open>typeof v === 'string'\<close>.\<close>

fun typeof_number :: "jsval \<Rightarrow> bool" where
  "typeof_number (JNum r) = True"
| "typeof_number v = False"

fun typeof_string :: "jsval \<Rightarrow> bool" where
  "typeof_string (JStr s) = True"
| "typeof_string v = False"

section \<open>Server route: merging the parsed analysis (\<^verbatim>\<open>POST\<close>, merge step)\<close>

text \<open>
  The literal attached when no entry is found:
  \<^verbatim>\<open>{ shape: "Not Analyzed", color: "Not Analyzed", transparency: "Not Analyzed",
     reason: "Index not found in AI response." }\<close>.
\<close>

definition not_analyzed :: jsval where
  "not_analyzed =
     JObj [(''shape'', JStr ''Not Analyzed''), (''color'', JStr ''Not Analyzed''),
           (''transparency'', JStr ''Not Analyzed''),
           (''reason'', JStr ''Index not found in AI response.'')]"

text \<open>
  The predicate of \<^verbatim>\<open>parsedAnalysis.find\<close>:
  \<^verbatim>\<open>item => item && typeof item.index === 'number' && item.index === index\<close>.
\<close>

definition find_pred :: "nat \<Rightarrow> jsval \<Rightarrow> bool" where
  "find_pred i item \<longleftrightarrow>
     truthy item \<and> typeof_number (get_prop item ''index'') \<and> get_prop item ''index'' = JNum (real i)"

text \<open>
  \<^verbatim>\<open>boundingBoxes.map((originalBox, index) => { const analysisResult = parsedAnalysis.find(...);
     return { ...originalBox, index: index,
              analysis: analysisResult ? analysisResult.analysis : { ... } }; })\<close>.
  A found entry is truthy, so the conditional takes its \<^verbatim>\<open>analysis\<close> property. The
  \<^verbatim>\<open>index\<close> the client sent inside each box is overwritten by the position, so the
  model's input boxes do not carry it.
\<close>

definition merge_one :: "jsval list \<Rightarrow> nat \<times> BoundingBox \<Rightarrow> jsval AnalyzedParticle" where
  "merge_one parsedAnalysis = (\<lambda>(i, originalBox).
     spread_box originalBox i
       (case List.find (find_pred i) parsedAnalysis of
          Some analysisResult \<Rightarrow> get_prop analysisResult ''analysis''
        | None \<Rightarrow> not_analyzed))"

definition finalParticles :: "BoundingBox list \<Rightarrow> jsval list \<Rightarrow> jsval AnalyzedParticle list" where
  "finalParticles boundingBoxes parsedAnalysis =
     map (merge_one parsedAnalysis) (List.enumerate 0 boundingBoxes)"

text \<open>
  The words of the specification, for comparison with \<^const>\<open>find_pred\<close>: a parsed entry
  has numeric index \<open>i\<close> when it is an object whose \<^verbatim>\<open>index\<close> property is the number \<open>i\<close>.
\<close>

fun has_numeric_index :: "jsval \<Rightarrow> nat \<Rightarrow> bool" where
  "has_numeric_index (JObj kvs) i = (map_of kvs ''index'' = Some (JNum (real i)))"
| "has_numeric_index v i = False"

text \<open>The sentinel as the specification words it (no full stop after the reason).\<close>

definition spec_sentinel :: jsval where
  "spec_sentinel =
     JObj [(''shape'', JStr ''Not Analyzed''), (''color'', JStr ''Not Analyzed''),
           (''transparency'', JStr ''Not Analyzed''),
           (''reason'', JStr ''Index not found in AI response'')]"

text \<open>
  The catch branch of the parse step answers with every box carrying
  \<^verbatim>\<open>{ shape: "Parse Error", color: "Parse Error", transparency: "Parse Error",
     error: "Could not parse AI analysis response." }\<close>.
\<close>

definition parse_error_analysis :: jsval where
  "parse_error_analysis =
     JObj [(''shape'', JStr ''Parse Error''), (''color'', JStr ''Parse Error''),
           (''transparency'', JStr ''Parse Error''),
           (''error'', JStr ''Could not parse AI analysis response.'')]"

definition fallbackParticles :: "BoundingBox list \<Rightarrow> jsval AnalyzedParticle list" where
  "fallbackParticles boundingBoxes =
     map (\<lambda>(i, box). spread_box box i parse_error_analysis) (List.enumerate 0 boundingBoxes)"

section \<open>Server route: extracting and decoding the reply (\<^verbatim>\<open>POST\<close>, parse step)\<close>

text \<open>
  \<^verbatim>\<open>String.prototype.indexOf\<close> and \<^verbatim>\<open>lastIndexOf\<close> for a one-character pattern:
  the first and the last position of the character, \<open>-1\<close> when it does not occur.
\<close>

fun indexOf :: "string \<Rightarrow> char \<Rightarrow> int" where
  "indexOf [] c = - 1"
| "indexOf (d # s) c =
     (if d = c then 0 else (let r = indexOf s c in if r = - 1 then - 1 else r + 1))"

fun lastIndexOf :: "string \<Rightarrow> char \<Rightarrow> int" where
  "lastIndexOf [] c = - 1"
| "lastIndexOf (d # s) c =
     (let r = lastIndexOf s c in if r \<noteq> - 1 then r + 1 else if d = c then 0 else - 1)"

text \<open>
  \<^verbatim>\<open>String.prototype.substring(start, end)\<close>: both arguments are clamped to the
  string and swapped when \<open>start > end\<close>.
\<close>

definition substring :: "string \<Rightarrow> int \<Rightarrow> int \<Rightarrow> string" where
  "substring s a b =
     (let n = int (length s);
          a' = max 0 (min a n);
          b' = max 0 (min b n);
          lo = min a' b';
          hi = max a' b'
      in take (nat (hi - lo)) (drop (nat lo) s))"

text \<open>
  The errors thrown inside the parse step's \<^verbatim>\<open>try\<close>, by the message of the source:
  \<^item> \<open>NoArrayFound\<close>: "Valid JSON array structure not found in AI response."
  \<^item> \<open>EmptyExtraction\<close>: "AI response content was empty after extraction."
  \<^item> \<open>MalformedJson\<close>: \<^verbatim>\<open>JSON.parse\<close> throws.
  \<^item> \<open>UnexpectedShape\<close>: "AI response parsed but was not in the expected JSON array format."
\<close>

datatype parse_failure = NoArrayFound | EmptyExtraction | MalformedJson | UnexpectedShape

definition open_bracket :: char where
  "open_bracket = CHR ''[''"

definition close_bracket :: char where
  "close_bracket = CHR '']''"

text \<open>
  \<^verbatim>\<open>const startIndex = responseText.indexOf('['); const endIndex = responseText.lastIndexOf(']');
  if (startIndex !== -1 && endIndex !== -1 && endIndex > startIndex)
     extractionAttempt = responseText.substring(startIndex, endIndex + 1);
  else throw ...\<close>
\<close>

definition extractionAttempt :: "string \<Rightarrow> parse_failure + string" where
  "extractionAttempt responseText =
     (let startIndex = indexOf responseText open_bracket;
          endIndex = lastIndexOf responseText close_bracket
      in if startIndex \<noteq> - 1 \<and> endIndex \<noteq> - 1 \<and> endIndex > startIndex
         then Inr (substring responseText startIndex (endIndex + 1))
         else Inl NoArrayFound)"

text \<open>
  The whole \<^verbatim>\<open>try\<close> block. \<^verbatim>\<open>JSON.parse\<close> belongs to the runtime, not to the
  repository: it is the parameter \<open>json_parse\<close>, \<open>None\<close> when it throws.
\<close>

definition parseResponse :: "(string \<Rightarrow> jsval option) \<Rightarrow> string \<Rightarrow> parse_failure + jsval list" where
  "parseResponse json_parse responseText =
     (case extractionAttempt responseText of
        Inl e \<Rightarrow> Inl e
      | Inr parseInput \<Rightarrow>
          if parseInput = [] then Inl EmptyExtraction
          else (case json_parse parseInput of
                  None \<Rightarrow> Inl MalformedJson
                | Some (JArr parsedAnalysis) \<Rightarrow> Inr parsedAnalysis
                | Some other \<Rightarrow> Inl UnexpectedShape))"

text \<open>
  The body of a response of the route, \<^verbatim>\<open>NextResponse.json({ error?, particles? }, { status })\<close>.
\<close>

record route_response =
  status :: nat
  body_error :: "string option"
  body_particles :: "jsval AnalyzedParticle list option"

text \<open>What \<^verbatim>\<open>model.generateContent\<close> did: it threw (with a message), or returned text.\<close>

datatype gemini_outcome = GeminiThrows string | GeminiText string

text \<open>\<^verbatim>\<open>a || b\<close> on strings: the empty string is falsy.\<close>

definition or_else :: "string \<Rightarrow> string \<Rightarrow> string" where
  "or_else a b = (if a \<noteq> [] then a else b)"

text \<open>
  The route from the call of the model onwards, for a request that passed the input
  validation (an API key is configured, the image is a non-empty string and
  \<^verbatim>\<open>boundingBoxes\<close> is a non-empty array; an empty array is answered with status 400).
\<close>

definition POST :: "(string \<Rightarrow> jsval option) \<Rightarrow> BoundingBox list \<Rightarrow> gemini_outcome \<Rightarrow> route_response" where
  "POST json_parse boundingBoxes outcome =
     (if boundingBoxes = [] then
        \<lparr>status = 400, body_error = Some ''Missing bounding boxes.'', body_particles = None\<rparr>
      else case outcome of
        GeminiThrows message \<Rightarrow>
          \<lparr>status = 500, body_error = Some (''AI service error: '' @ or_else message ''Unknown''),
           body_particles = Some []\<rparr>
      | GeminiText responseText \<Rightarrow>
          (case parseResponse json_parse responseText of
             Inl parseError \<Rightarrow>
               \<lparr>status = 200,
                body_error = Some ''AI analysis completed, but response parsing failed.'',
                body_particles = Some (fallbackParticles boundingBoxes)\<rparr>
           | Inr parsedAnalysis \<Rightarrow>
               \<lparr>status = 200, body_error = None,
                body_particles = Some (finalParticles boundingBoxes parsedAnalysis)\<rparr>))"

section \<open>Client: normalising the detector's reply (\<^verbatim>\<open>processRoboflowResults\<close>)\<close>

text \<open>
  The detector's reply \<^verbatim>\<open>{ image: { width, height }, predictions: [...] }\<close>. An image
  dimension is a number, or \<open>None\<close> when it is absent or \<^verbatim>\<open>null\<close> (so is \<^verbatim>\<open>image\<close>);
  dimensions of another type, which the division would coerce, are outside the model.
  \<^verbatim>\<open>predictions\<close> is \<open>None\<close> when the property is absent or not an array. Each
  prediction is an untyped value, checked by the code itself.
\<close>

record image_info =
  image_width :: "real option"
  image_height :: "real option"

record roboflowData =
  image :: "image_info option"
  predictions :: "jsval list option"

text \<open>\<^verbatim>\<open>!v\<close> for a number that may be absent: true when absent or zero.\<close>

fun falsy_number :: "real option \<Rightarrow> bool" where
  "falsy_number None = True"
| "falsy_number (Some r) = (r = 0)"

text \<open>
  The error thrown by the dimension check,
  \<^verbatim>\<open>new Error("Invalid detection data structure (missing image dimensions).")\<close>.
\<close>

datatype detection_failure = InvalidDetectionData

definition failure_message :: "detection_failure \<Rightarrow> string" where
  "failure_message e = ''Invalid detection data structure (missing image dimensions).''"

text \<open>The validation of one prediction (the six \<^verbatim>\<open>typeof\<close> tests after \<^verbatim>\<open>pred &&\<close>).\<close>

definition valid_prediction :: "jsval \<Rightarrow> bool" where
  "valid_prediction pred \<longleftrightarrow>
     truthy pred \<and> typeof_number (get_prop pred ''x'') \<and> typeof_number (get_prop pred ''y'')
     \<and> typeof_number (get_prop pred ''width'') \<and> typeof_number (get_prop pred ''height'')
     \<and> typeof_number (get_prop pred ''confidence'') \<and> typeof_string (get_prop pred ''class'')"

text \<open>Reading a property that has passed its \<^verbatim>\<open>typeof\<close> test.\<close>

fun number_of :: "jsval \<Rightarrow> real" where
  "number_of (JNum r) = r"
| "number_of v = 0"

fun string_of :: "jsval \<Rightarrow> string" where
  "string_of (JStr s) = s"
| "string_of v = []"

definition normalized_box :: "real \<Rightarrow> real \<Rightarrow> jsval \<Rightarrow> BoundingBox" where
  "normalized_box imgWidth imgHeight pred =
     \<lparr>center_x = number_of (get_prop pred ''x'') / imgWidth,
      center_y = number_of (get_prop pred ''y'') / imgHeight,
      width = number_of (get_prop pred ''width'') / imgWidth,
      height = number_of (get_prop pred ''height'') / imgHeight,
      confidence = number_of (get_prop pred ''confidence''),
      class_label = string_of (get_prop pred ''class'')\<rparr>"

text \<open>The \<^verbatim>\<open>forEach\<close> loop: a valid prediction is pushed, an invalid one skipped.\<close>

fun collect_boxes :: "real \<Rightarrow> real \<Rightarrow> jsval list \<Rightarrow> BoundingBox list" where
  "collect_boxes imgWidth imgHeight [] = []"
| "collect_boxes imgWidth imgHeight (pred # preds) =
     (if valid_prediction pred
      then normalized_box imgWidth imgHeight pred # collect_boxes imgWidth imgHeight preds
      else collect_boxes imgWidth imgHeight preds)"

definition processRoboflowResults :: "roboflowData \<Rightarrow> detection_failure + BoundingBox list" where
  "processRoboflowResults d =
     (case image d of
        None \<Rightarrow> Inl InvalidDetectionData
      | Some im \<Rightarrow>
          if falsy_number (image_width im) \<or> falsy_number (image_height im)
          then Inl InvalidDetectionData
          else (case predictions d of
                  None \<Rightarrow> Inr []
                | Some preds \<Rightarrow>
                    Inr (collect_boxes (the (image_width im)) (the (image_height im)) preds)))"

section \<open>Annotation geometry (\<^verbatim>\<open>createAnnotatedImage\<close>)\<close>

text \<open>
  The rectangle drawn for a box on a canvas of \<open>imgWidth \<times> imgHeight\<close> pixels:
  \<^verbatim>\<open>const width = box.width * imgWidth; const height = box.height * imgHeight;
  const topLeftX = (box.x * imgWidth) - (width / 2);
  const topLeftY = (box.y * imgHeight) - (height / 2);\<close>
\<close>

record pixel_rect =
  topLeftX :: real
  topLeftY :: real
  widthPx :: real
  heightPx :: real

definition denormalize :: "BoundingBox \<Rightarrow> real \<Rightarrow> real \<Rightarrow> pixel_rect" where
  "denormalize box imgWidth imgHeight =
     (let w = width box * imgWidth;
          h = height box * imgHeight
      in \<lparr>topLeftX = center_x box * imgWidth - w / 2,
          topLeftY = center_y box * imgHeight - h / 2,
          widthPx = w, heightPx = h\<rparr>)"

section \<open>Client: state and the asynchronous pipeline\<close>

text \<open>\<^verbatim>\<open>interface ParticleAnalysis\<close>: every field is an optional string.\<close>

record ParticleAnalysis =
  shape :: "string option"
  color :: "string option"
  transparency :: "string option"
  error :: "string option"
  reason :: "string option"

type_synonym particle = "ParticleAnalysis option AnalyzedParticle"

datatype DisplayMode = Confidence | Type | Color | Transparency

text \<open>The \<^verbatim>\<open>useState\<close> cells of \<^verbatim>\<open>MicroplasticDetectorApp\<close>.\<close>

record app_state =
  confidenceThreshold :: real
  capturedImage :: "string option"
  boundingBoxes :: "BoundingBox list"
  analyzedParticles :: "particle list"
  isDetecting :: bool
  isAnalyzing :: bool
  errorState :: "string option"
  analysisErrorState :: "string option"
  displayMode :: DisplayMode
  highlightedParticleIndex :: "nat option"

definition isProcessing :: "app_state \<Rightarrow> bool" where
  "isProcessing s \<longleftrightarrow> isDetecting s \<or> isAnalyzing s"

text \<open>
  \<^verbatim>\<open>ImageInput\<close> disables the capture and upload controls with
  \<^verbatim>\<open>disabled={isProcessing || !!capturedImage}\<close> and the clear control with
  \<^verbatim>\<open>disabled={isProcessing}\<close>.
\<close>

definition submit_disabled :: "app_state \<Rightarrow> bool" where
  "submit_disabled s \<longleftrightarrow> isProcessing s \<or> capturedImage s \<noteq> None"

definition clear_disabled :: "app_state \<Rightarrow> bool" where
  "clear_disabled s \<longleftrightarrow> isProcessing s"

definition resetAnalysisState :: "app_state \<Rightarrow> app_state" where
  "resetAnalysisState s =
     s\<lparr>errorState := None, analysisErrorState := None, boundingBoxes := [],
       analyzedParticles := [], displayMode := Confidence, highlightedParticleIndex := None\<rparr>"

definition handleClearImage :: "app_state \<Rightarrow> app_state" where
  "handleClearImage s = resetAnalysisState (s\<lparr>capturedImage := None\<rparr>)"

text \<open>The synchronous head of \<^verbatim>\<open>startDetection\<close>, up to its first \<^verbatim>\<open>await\<close>.\<close>

definition startDetection_begin :: "app_state \<Rightarrow> app_state" where
  "startDetection_begin s =
     s\<lparr>isDetecting := True, isAnalyzing := False, errorState := None,
       analysisErrorState := None, boundingBoxes := [], analyzedParticles := [],
       highlightedParticleIndex := None\<rparr>"

text \<open>
  \<^verbatim>\<open>captureImage\<close> with a screenshot, or \<^verbatim>\<open>handleFileUpload\<close> with a file that was
  read: \<^verbatim>\<open>resetAnalysisState(); setCapturedImage(img); void startDetection(img);\<close>.
\<close>

definition submitImage :: "string \<Rightarrow> app_state \<Rightarrow> app_state" where
  "submitImage img s = startDetection_begin ((resetAnalysisState s)\<lparr>capturedImage := Some img\<rparr>)"

text \<open>The synchronous head of \<^verbatim>\<open>startAnalysis\<close>.\<close>

definition startAnalysis_begin :: "app_state \<Rightarrow> app_state" where
  "startAnalysis_begin s = s\<lparr>isDetecting := False, isAnalyzing := True, analysisErrorState := None\<rparr>"


text \<open>
  What the awaited steps of \<^verbatim>\<open>startDetection\<close> produced: an error thrown before the
  reply was read (resize, fetch, a response that is not ok), or the decoded reply.
\<close>

datatype detection_outcome = DetectionThrows string | DetectionData roboflowData

text \<open>The \<^verbatim>\<open>catch\<close> branch of \<^verbatim>\<open>startDetection\<close>.\<close>

definition startDetection_catch :: "string \<Rightarrow> app_state \<Rightarrow> app_state" where
  "startDetection_catch message s =
     s\<lparr>errorState := Some (''Detection Error: '' @ message), isDetecting := False,
       isAnalyzing := False\<rparr>"

text \<open>
  \<^verbatim>\<open>detectedBoxes.filter(box => box.confidence >= confidenceThreshold)\<close>, the boxes
  handed to \<^verbatim>\<open>startAnalysis\<close>.
\<close>

definition boxesAboveThreshold :: "real \<Rightarrow> BoundingBox list \<Rightarrow> BoundingBox list" where
  "boxesAboveThreshold thr detectedBoxes = filter (\<lambda>box. confidence box \<ge> thr) detectedBoxes"

text \<open>
  The rest of \<^verbatim>\<open>startDetection\<close> once its awaits have settled. \<open>thr\<close> is the
  \<^verbatim>\<open>confidenceThreshold\<close> the callback closed over. The result is the new state and,
  when the analysis is started, the boxes handed to \<^verbatim>\<open>startAnalysis\<close>.
\<close>

definition startDetection_settle ::
    "real \<Rightarrow> detection_outcome \<Rightarrow> app_state \<Rightarrow> app_state \<times> BoundingBox list option" where
  "startDetection_settle thr outcome s =
     (case outcome of
        DetectionThrows message \<Rightarrow> (startDetection_catch message s, None)
      | DetectionData detectionData \<Rightarrow>
          (case processRoboflowResults detectionData of
             Inl e \<Rightarrow> (startDetection_catch (failure_message e) s, None)
           | Inr detectedBoxes \<Rightarrow>
               (let s1 = s\<lparr>boundingBoxes := detectedBoxes\<rparr>
                in if boxesAboveThreshold thr detectedBoxes \<noteq> []
                   then (startAnalysis_begin s1, Some (boxesAboveThreshold thr detectedBoxes))
                   else (s1\<lparr>isDetecting := False\<rparr>, None))))"

text \<open>
  The decoded body of the analysis reply, at the type the client casts it to, and what the
  awaited steps of \<^verbatim>\<open>startAnalysis\<close> produced: a rejection of
  \<^verbatim>\<open>createAnnotatedImage\<close> or \<^verbatim>\<open>fetch\<close> (with its message), a body that is not JSON
  (with the status as text), or a JSON body with \<^verbatim>\<open>response.ok\<close> and the status.
\<close>

record analysisData =
  data_error :: "string option"
  data_particles :: "particle list option"

datatype analysis_outcome =
    AnalysisRejected string
  | NonJsonBody string
  | JsonBody bool string analysisData

text \<open>The \<^verbatim>\<open>catch\<close> and \<^verbatim>\<open>finally\<close> branches of \<^verbatim>\<open>startAnalysis\<close>.\<close>

definition startAnalysis_catch :: "string \<Rightarrow> app_state \<Rightarrow> app_state" where
  "startAnalysis_catch message s =
     s\<lparr>analysisErrorState := Some (''Analysis Error: '' @ message), analyzedParticles := [],
       isAnalyzing := False\<rparr>"

definition truthy_string :: "string option \<Rightarrow> bool" where
  "truthy_string v = (case v of None \<Rightarrow> False | Some s \<Rightarrow> s \<noteq> [])"

text \<open>The rest of \<^verbatim>\<open>startAnalysis\<close> once its awaits have settled.\<close>

definition startAnalysis_settle :: "analysis_outcome \<Rightarrow> app_state \<Rightarrow> app_state" where
  "startAnalysis_settle outcome s =
     (case outcome of
        AnalysisRejected message \<Rightarrow> startAnalysis_catch message s
      | NonJsonBody status_text \<Rightarrow>
          startAnalysis_catch (''Analysis API non-JSON response (Status: '' @ status_text @ '')'') s
      | JsonBody ok status_text d \<Rightarrow>
          if \<not> ok then
            startAnalysis_catch
              (if truthy_string (data_error d) then the (data_error d)
               else ''Analysis API failed: '' @ status_text) s
          else (case data_particles d of
                  Some ps \<Rightarrow>
                    (let s1 = s\<lparr>analyzedParticles := ps\<rparr>;
                         s2 = (if truthy_string (data_error d)
                               then s1\<lparr>analysisErrorState := data_error d\<rparr> else s1)
                     in s2\<lparr>isAnalyzing := False\<rparr>)
                | None \<Rightarrow> startAnalysis_catch ''Invalid data structure from analysis API.'' s))"

text \<open>The initial values of the \<^verbatim>\<open>useState\<close> cells.\<close>

definition initial_state :: app_state where
  "initial_state =
     \<lparr>confidenceThreshold = 1/2, capturedImage = None, boundingBoxes = [],
      analyzedParticles = [], isDetecting = False, isAnalyzing = False, errorState = None,
      analysisErrorState = None, displayMode = Confidence, highlightedParticleIndex = None\<rparr>"

text \<open>
  The page as a transition system. An event is a submission of an image, or the
  settling of the awaits of one \<^verbatim>\<open>startDetection\<close> or \<^verbatim>\<open>startAnalysis\<close> call; the
  handlers run to completion one after the other. Neither handler receives anything that
  identifies the submission its call belongs to, so an event carries nothing of the kind.
\<close>

datatype event =
    Submit string
  | DetectionSettled real detection_outcome
  | AnalysisSettled analysis_outcome

fun step :: "app_state \<Rightarrow> event \<Rightarrow> app_state" where
  "step s (Submit img) = submitImage img s"
| "step s (DetectionSettled thr outcome) = fst (startDetection_settle thr outcome s)"
| "step s (AnalysisSettled outcome) = startAnalysis_settle outcome s"

definition run :: "event list \<Rightarrow> app_state" where
  "run events = foldl step initial_state events"

section \<open>Client: display projection and statistics\<close>

text \<open>The memo \<^verbatim>\<open>particlesToDisplay\<close>.\<close>

definition particlesToDisplay :: "app_state \<Rightarrow> particle list" where
  "particlesToDisplay s =
     (let particles =
        (if analyzedParticles s \<noteq> [] then analyzedParticles s
         else if boundingBoxes s \<noteq> []
           then map (\<lambda>(i, box). spread_box box i None) (List.enumerate 0 (boundingBoxes s))
           else [])
      in filter (\<lambda>p. confidence p \<ge> confidenceThreshold s) particles)"

text \<open>
  What a distribution object holds under one of its own keys. The declared type is
  \<^verbatim>\<open>Record<string, number>\<close>, but the objects are built from the literal \<^verbatim>\<open>{}\<close> and
  so inherit the members of \<^verbatim>\<open>Object.prototype\<close>: adding 1 to an inherited member
  yields a string, which is then stored. \<open>Count n\<close> is the number \<open>n\<close>;
  \<open>Concatenation\<close> is such a string (the text of the member followed by 1s).
\<close>

datatype entry = Count nat | Concatenation

text \<open>
  The names under which \<^verbatim>\<open>Object.prototype\<close> has a member (ECMAScript, with its
  annex on legacy features).
\<close>

definition object_prototype_members :: "string list" where
  "object_prototype_members =
     [''constructor'', ''hasOwnProperty'', ''isPrototypeOf'', ''propertyIsEnumerable'',
      ''toLocaleString'', ''toString'', ''valueOf'', ''__defineGetter__'', ''__defineSetter__'',
      ''__lookupGetter__'', ''__lookupSetter__'', ''__proto__'']"

text \<open>
  \<^verbatim>\<open>interface AnalysisStats\<close>. Its field \<^verbatim>\<open>transparency\<close> is renamed (the name is taken
  by \<^typ>\<open>ParticleAnalysis\<close>). A distribution is the map of the own properties of its
  object.
\<close>

record AnalysisStats =
  shapes :: "string \<rightharpoonup> entry"
  colors :: "string \<rightharpoonup> entry"
  transparencies :: "string \<rightharpoonup> entry"
  count :: nat
  analyzedCount :: nat
  hasStats :: bool

text \<open>\<^verbatim>\<open>v || "Unknown"\<close> for an optional string.\<close>

definition or_unknown :: "string option \<Rightarrow> string" where
  "or_unknown v = (if truthy_string v then the v else ''Unknown'')"

text \<open>
  \<^verbatim>\<open>m[k] = (m[k] || 0) + 1\<close> on an object built from \<^verbatim>\<open>{}\<close>.
  \<^item> For \<^verbatim>\<open>__proto__\<close> the read yields the prototype object and the assignment of the
    resulting string to \<^verbatim>\<open>__proto__\<close> is ignored: nothing is stored.
  \<^item> An own number becomes the next number; an own string stays a string.
  \<^item> With no own property, the read yields the inherited member when there is one (a
    function, which is truthy, so a string is stored), and \<^verbatim>\<open>undefined\<close> otherwise (so
    1 is stored).
\<close>

definition increment :: "(string \<rightharpoonup> entry) \<Rightarrow> string \<Rightarrow> (string \<rightharpoonup> entry)" where
  "increment m k =
     (if k = ''__proto__'' then m
      else case m k of
             Some (Count c) \<Rightarrow> m(k \<mapsto> Count (c + 1))
           | Some Concatenation \<Rightarrow> m(k \<mapsto> Concatenation)
           | None \<Rightarrow>
               if k \<in> set object_prototype_members then m(k \<mapsto> Concatenation)
               else m(k \<mapsto> Count 1))"

text \<open>
  The test of the loop body:
  \<^verbatim>\<open>particle.analysis && !particle.analysis.error && particle.analysis.shape !== 'Not Analyzed'\<close>.
\<close>

definition counted :: "particle \<Rightarrow> bool" where
  "counted p =
     (case analysis p of
        None \<Rightarrow> False
      | Some a \<Rightarrow> \<not> truthy_string (error a) \<and> shape a \<noteq> Some ''Not Analyzed'')"

text \<open>One turn of the \<^verbatim>\<open>forEach\<close> loop over the accumulated record.\<close>

definition stats_step :: "AnalysisStats \<Rightarrow> particle \<Rightarrow> AnalysisStats" where
  "stats_step acc p =
     (if counted p then
        (let a = the (analysis p)
         in acc\<lparr>analyzedCount := analyzedCount acc + 1,
                shapes := increment (shapes acc) (or_unknown (shape a)),
                colors := increment (colors acc) (or_unknown (color a)),
                transparencies := increment (transparencies acc) (or_unknown (transparency a))\<rparr>)
      else acc)"

text \<open>The memo \<^verbatim>\<open>analysisStats\<close> as a function of the displayed particles.\<close>

definition analysisStats :: "particle list \<Rightarrow> AnalysisStats option" where
  "analysisStats ps =
     (if ps = [] then None
      else (let acc = foldl stats_step
                        \<lparr>shapes = Map.empty, colors = Map.empty, transparencies = Map.empty,
                         count = length ps, analyzedCount = 0, hasStats = False\<rparr> ps
            in Some (acc\<lparr>hasStats := analyzedCount acc > 0\<rparr>)))"

section \<open>Client: the CSV export (\<^verbatim>\<open>handleExportCsv\<close>)\<close>

definition dquote :: char where
  "dquote = CHR 0x22"

definition comma :: char where
  "comma = CHR '',''"

definition newline :: char where
  "newline = CHR 0x0A"

text \<open>\<^verbatim>\<open>/[",\n]/.test(s)\<close>.\<close>

fun regex_test :: "string \<Rightarrow> bool" where
  "regex_test [] = False"
| "regex_test (c # s) = (c = dquote \<or> c = comma \<or> c = newline \<or> regex_test s)"

text \<open>\<^verbatim>\<open>s.replace(/"/g, '""')\<close>.\<close>

fun replace_quotes :: "string \<Rightarrow> string" where
  "replace_quotes [] = []"
| "replace_quotes (c # s) =
     (if c = dquote then dquote # dquote # replace_quotes s else c # replace_quotes s)"

text \<open>
  \<^verbatim>\<open>escapeCsvField\<close>, on the string value \<^verbatim>\<open>String(field ?? '')\<close> of the field.
\<close>

definition escapeCsvField :: "string \<Rightarrow> string" where
  "escapeCsvField s = (if regex_test s then [dquote] @ replace_quotes s @ [dquote] else s)"

text \<open>\<^verbatim>\<open>Array.prototype.join\<close> with a one-character separator.\<close>

fun join :: "char \<Rightarrow> string list \<Rightarrow> string" where
  "join sep [] = []"
| "join sep [s] = s"
| "join sep (s # t # ss) = s @ sep # join sep (t # ss)"

text \<open>
  The fields of one row. The renderings of numbers belong to the runtime and are
  parameters: \<open>show_index\<close> is \<^verbatim>\<open>String(p.index)\<close> and \<open>toFixed d v\<close> is
  \<^verbatim>\<open>v.toFixed(d)\<close>.
\<close>

definition analysis_field :: "(ParticleAnalysis \<Rightarrow> string option) \<Rightarrow> particle \<Rightarrow> string" where
  "analysis_field f p =
     (case analysis p of
        None \<Rightarrow> []
      | Some a \<Rightarrow> (if truthy_string (f a) then the (f a) else []))"

definition csv_row :: "(nat \<Rightarrow> string) \<Rightarrow> (nat \<Rightarrow> real \<Rightarrow> string) \<Rightarrow> particle \<Rightarrow> string list" where
  "csv_row show_index toFixed p =
     [show_index (index p), toFixed 1 (confidence p * 100), class_label p,
      toFixed 5 (center_x p), toFixed 5 (center_y p), toFixed 5 (width p), toFixed 5 (height p),
      analysis_field shape p, analysis_field color p, analysis_field transparency p,
      (if analysis_field error p \<noteq> [] then analysis_field error p else analysis_field reason p)]"

definition csv_headers :: "string list" where
  "csv_headers =
     [''Index'', ''Confidence (%)'', ''Class'', ''Center X (rel)'', ''Center Y (rel)'',
      ''Width (rel)'', ''Height (rel)'', ''Shape'', ''Color'', ''Transparency'', ''Analysis Note'']"

definition csv_line :: "string list \<Rightarrow> string" where
  "csv_line row = join comma (map escapeCsvField row)"

definition csvContent :: "(nat \<Rightarrow> string) \<Rightarrow> (nat \<Rightarrow> real \<Rightarrow> string) \<Rightarrow> particle list \<Rightarrow> string" where
  "csvContent show_index toFixed ps =
     join newline (csv_line csv_headers # map (\<lambda>p. csv_line (csv_row show_index toFixed p)) ps)"

section \<open>Client: the summary component (\<^verbatim>\<open>SummaryStats\<close>)\<close>

text \<open>The view \<^verbatim>\<open>SummaryStats\<close> renders, by the order of its \<^verbatim>\<open>if\<close> statements.\<close>

datatype summary_view = NoMicroplastics | NoneMeetThreshold | Breakdown | RendersNothing

definition SummaryStats :: "AnalysisStats option \<Rightarrow> nat \<Rightarrow> bool \<Rightarrow> summary_view" where
  "SummaryStats stats totalDetectedCount processing =
     (if stats = None \<and> \<not> processing \<and> totalDetectedCount = 0 then NoMicroplastics
      else if stats \<noteq> None \<and> totalDetectedCount > 0 \<and> count (the stats) = 0 \<and> \<not> processing
        then NoneMeetThreshold
      else if stats \<noteq> None \<and> count (the stats) > 0 then Breakdown
      else RendersNothing)"

section \<open>Notions used in the statements\<close>

text \<open>A decoder that knows one text: it stands for \<^verbatim>\<open>JSON.parse\<close> on that text.\<close>

definition decoder_for :: "string \<Rightarrow> jsval \<Rightarrow> string \<Rightarrow> jsval option" where
  "decoder_for text v = (\<lambda>s. if s = text then Some v else None)"

text \<open>
  The words of the specification for one field of the export: quoted, with the quotes
  inside doubled, when it contains a comma, a double quote or a newline; unchanged
  otherwise.
\<close>

definition emitted_field :: "string \<Rightarrow> string" where
  "emitted_field s =
     (if comma \<in> set s \<or> dquote \<in> set s \<or> newline \<in> set s
      then [dquote] @ concat (map (\<lambda>c. if c = dquote then [dquote, dquote] else [c]) s) @ [dquote]
      else s)"

text \<open>An optional string as the text of a column: nothing when it is absent.\<close>

definition text_or_empty :: "string option \<Rightarrow> string" where
  "text_or_empty v = (case v of None \<Rightarrow> [] | Some s \<Rightarrow> s)"

text \<open>
  A reader of comma-separated text, to state that the export can be read back: records
  are separated by newlines and fields by commas; a field that starts with a double quote
  runs to the next double quote that is not doubled, and a doubled one stands for one
  double quote; an unquoted field holds no double quote. The arguments are the state, the
  field and the record read so far, the records completed, and the text left.
\<close>

datatype reader_state = FieldStart | InPlain | InQuoted | AfterQuote

fun read_csv_from ::
    "reader_state \<Rightarrow> string \<Rightarrow> string list \<Rightarrow> string list list \<Rightarrow> string
      \<Rightarrow> string list list option" where
  "read_csv_from st field row rows [] =
     (if st = InQuoted then None else Some (rows @ [row @ [field]]))"
| "read_csv_from FieldStart field row rows (c # s) =
     (if c = dquote then read_csv_from InQuoted [] row rows s
      else if c = comma then read_csv_from FieldStart [] (row @ [[]]) rows s
      else if c = newline then read_csv_from FieldStart [] [] (rows @ [row @ [[]]]) s
      else read_csv_from InPlain [c] row rows s)"
| "read_csv_from InPlain field row rows (c # s) =
     (if c = dquote then None
      else if c = comma then read_csv_from FieldStart [] (row @ [field]) rows s
      else if c = newline then read_csv_from FieldStart [] [] (rows @ [row @ [field]]) s
      else read_csv_from InPlain (field @ [c]) row rows s)"
| "read_csv_from InQuoted field row rows (c # s) =
     (if c = dquote then read_csv_from AfterQuote field row rows s
      else read_csv_from InQuoted (field @ [c]) row rows s)"
| "read_csv_from AfterQuote field row rows (c # s) =
     (if c = dquote then read_csv_from InQuoted (field @ [dquote]) row rows s
      else if c = comma then read_csv_from FieldStart [] (row @ [field]) rows s
      else if c = newline then read_csv_from FieldStart [] [] (rows @ [row @ [field]]) s
      else None)"

definition read_csv :: "string \<Rightarrow> string list list option" where
  "read_csv content = read_csv_from FieldStart [] [] [] content"

text \<open>
  What the reader does at the end of a field and at the end of a record, when the text
  left is empty or starts with the separator.
\<close>

definition field_end :: "string \<Rightarrow> string list \<Rightarrow> string list list \<Rightarrow> string \<Rightarrow> string list list option" where
  "field_end field row rows rest =
     (case rest of
        [] \<Rightarrow> Some (rows @ [row @ [field]])
      | c # r \<Rightarrow>
          if c = comma then read_csv_from FieldStart [] (row @ [field]) rows r
          else read_csv_from FieldStart [] [] (rows @ [row @ [field]]) r)"

text \<open>The text left after a field is empty or starts with a comma or a newline.\<close>

definition at_separator :: "string \<Rightarrow> bool" where
  "at_separator rest \<longleftrightarrow> rest = [] \<or> hd rest = comma \<or> hd rest = newline"

definition record_end :: "string list \<Rightarrow> string list list \<Rightarrow> string \<Rightarrow> string list list option" where
  "record_end row rows rest =
     (case rest of
        [] \<Rightarrow> Some (rows @ [row])
      | c # r \<Rightarrow> read_csv_from FieldStart [] [] (rows @ [row]) r)"

text \<open>
  The words of the specification, with the error test as the code makes it: a particle is
  analyzable when its analysis is present, its error is absent or the empty string, and
  its shape is not "Not Analyzed".
\<close>

definition analyzable :: "particle \<Rightarrow> bool" where
  "analyzable p =
     (case analysis p of
        None \<Rightarrow> False
      | Some a \<Rightarrow> (error a = None \<or> error a = Some []) \<and> shape a \<noteq> Some ''Not Analyzed'')"

text \<open>
  The entry of a distribution for the label \<open>k\<close>: the number of analyzable particles
  labelled \<open>k\<close>, and no entry when there is none.
\<close>

definition tally :: "(ParticleAnalysis \<Rightarrow> string option) \<Rightarrow> particle list \<Rightarrow> string \<Rightarrow> nat option" where
  "tally field ps k =
     (let n = length (filter (\<lambda>p. analyzable p \<and> or_unknown (field (the (analysis p))) = k) ps)
      in if n = 0 then None else Some n)"

text \<open>
  Adding \<open>n\<close> occurrences to what is stored under a key that is not a member of
  \<^verbatim>\<open>Object.prototype\<close>.
\<close>

definition add_count :: "entry option \<Rightarrow> nat \<Rightarrow> entry option" where
  "add_count v n =
     (if n = 0 then v
      else case v of
             None \<Rightarrow> Some (Count n)
           | Some (Count c) \<Rightarrow> Some (Count (c + n))
           | Some Concatenation \<Rightarrow> Some Concatenation)"

text \<open>The record built for a non-empty list, before \<open>hasStats\<close> is set.\<close>

definition initial_stats :: "nat \<Rightarrow> AnalysisStats" where
  "initial_stats n =
     \<lparr>shapes = Map.empty, colors = Map.empty, transparencies = Map.empty,
      count = n, analyzedCount = 0, hasStats = False\<rparr>"

text \<open>The events that submit an image.\<close>

fun is_submit :: "event \<Rightarrow> bool" where
  "is_submit (Submit img) = True"
| "is_submit e = False"

text \<open>
  The outcomes of \<^verbatim>\<open>startAnalysis\<close> that end in its \<^verbatim>\<open>catch\<close> branch: a rejected
  promise (network error), a body that is not JSON, a response that is not ok, or a body
  without a \<^verbatim>\<open>particles\<close> array.
\<close>

fun analysis_failed :: "analysis_outcome \<Rightarrow> bool" where
  "analysis_failed (AnalysisRejected message) = True"
| "analysis_failed (NonJsonBody status_text) = True"
| "analysis_failed (JsonBody ok status_text d) = (\<not> ok \<or> data_particles d = None)"

section \<open>Concrete inputs used by the examples\<close>

definition example_box :: "real \<Rightarrow> BoundingBox" where
  "example_box c =
     \<lparr>center_x = 1/2, center_y = 1/2, width = 1/5, height = 1/5, confidence = c,
      class_label = ''particle''\<rparr>"

definition fiber_blue :: jsval where
  "fiber_blue = JObj [(''shape'', JStr ''Fiber''), (''color'', JStr ''Blue''),
                      (''transparency'', JStr ''Opaque'')]"

definition film_clear :: jsval where
  "film_clear = JObj [(''shape'', JStr ''Film''), (''color'', JStr ''Clear''),
                      (''transparency'', JStr ''Transparent'')]"

text \<open>
  A parsed reply for three boxes: index 1 twice, index 0 once, an index out of range, an
  index that is a string, an entry that is \<^verbatim>\<open>null\<close>; no entry for index 2.
\<close>

definition example_parsed :: "jsval list" where
  "example_parsed =
     [JObj [(''index'', JNum 1), (''analysis'', fiber_blue)],
      JNull,
      JObj [(''index'', JStr ''0''), (''analysis'', film_clear)],
      JObj [(''index'', JNum 7), (''analysis'', film_clear)],
      JObj [(''index'', JNum 1), (''analysis'', film_clear)],
      JObj [(''index'', JNum 0), (''analysis'', film_clear)]]"

definition example_boxes :: "BoundingBox list" where
  "example_boxes = [example_box (9/10), example_box (4/5), example_box (7/10)]"

text \<open>Scenario A: one prediction in absolute pixels on an image of 200 by 100.\<close>

definition scenario_a_prediction :: jsval where
  "scenario_a_prediction =
     JObj [(''x'', JNum 100), (''y'', JNum 50), (''width'', JNum 40), (''height'', JNum 20),
           (''confidence'', JNum (9/10)), (''class'', JStr ''particle'')]"

definition detector_reply :: "real option \<Rightarrow> real option \<Rightarrow> roboflowData" where
  "detector_reply w h =
     \<lparr>image = Some \<lparr>image_width = w, image_height = h\<rparr>,
      predictions = Some [scenario_a_prediction]\<rparr>"

text \<open>
  Scenario C: the reply \<^verbatim>\<open>Sure! ```json\n[{"index":0,"analysis":{...}}]\n```\<close>, its
  array text, and the value the array text denotes.
\<close>

definition scenario_c_body :: string where
  "scenario_c_body =
     ''{'' @ [dquote] @ ''index'' @ [dquote] @ '':0,''
       @ [dquote] @ ''analysis'' @ [dquote] @ '':{''
       @ [dquote] @ ''shape'' @ [dquote] @ '':'' @ [dquote] @ ''Fiber'' @ [dquote] @ '',''
       @ [dquote] @ ''color'' @ [dquote] @ '':'' @ [dquote] @ ''Blue'' @ [dquote] @ '',''
       @ [dquote] @ ''transparency'' @ [dquote] @ '':'' @ [dquote] @ ''Opaque'' @ [dquote]
       @ ''}}''"

definition scenario_c_array :: string where
  "scenario_c_array = open_bracket # scenario_c_body @ [close_bracket]"

definition scenario_c_text :: string where
  "scenario_c_text = ''Sure! ```json'' @ [newline] @ scenario_c_array @ [newline] @ ''```''"

definition scenario_c_entry :: jsval where
  "scenario_c_entry = JObj [(''index'', JNum 0), (''analysis'', fiber_blue)]"

definition quoted_example :: string where
  "quoted_example = ''Fiber, '' @ [dquote] @ ''blue'' @ [dquote]"

text \<open>
  A displayed particle whose shape holds a comma and double quotes and whose note holds a
  newline, and renderings of numbers for the example.
\<close>

definition awkward_particle :: particle where
  "awkward_particle =
     spread_box (example_box (9/10)) 0
       (Some \<lparr>shape = Some quoted_example, color = Some ''Blue'', transparency = None,
              error = None, reason = Some (''two'' @ [newline] @ ''lines'')\<rparr>)"

definition example_show_index :: "nat \<Rightarrow> string" where
  "example_show_index n = ''0''"

definition example_toFixed :: "nat \<Rightarrow> real \<Rightarrow> string" where
  "example_toFixed digits v = (if digits = 1 then ''90.0'' else ''0.50000'')"

text \<open>Particles for the examples.\<close>

definition analysis_of :: "string \<Rightarrow> string option \<Rightarrow> ParticleAnalysis" where
  "analysis_of sh err =
     \<lparr>shape = Some sh, color = Some ''Blue'', transparency = None, error = err, reason = None\<rparr>"

definition example_particles :: "particle list" where
  "example_particles =
     [spread_box (example_box (9/10)) 0 (Some (analysis_of ''Fiber'' None)),
      spread_box (example_box (4/5)) 1 (Some (analysis_of ''Parse Error'' (Some ''failed''))),
      spread_box (example_box (7/10)) 2 None,
      spread_box (example_box (3/5)) 3 (Some (analysis_of ''Not Analyzed'' None))]"

definition example_state :: "real \<Rightarrow> BoundingBox list \<Rightarrow> particle list \<Rightarrow> app_state" where
  "example_state thr boxes ps =
     \<lparr>confidenceThreshold = thr, capturedImage = Some ''image'', boundingBoxes = boxes,
      analyzedParticles = ps, isDetecting = False, isAnalyzing = False, errorState = None,
      analysisErrorState = None, displayMode = Confidence, highlightedParticleIndex = None\<rparr>"

text \<open>A state with three detected boxes, threshold 0.75, and the analysis call in flight.\<close>

definition analysing_state :: app_state where
  "analysing_state = startAnalysis_begin (example_state (3/4) example_boxes [])"

text \<open>
  Two detections, the first below the threshold 0.5 and the second above it, with
  different geometry.
\<close>

definition wide_box :: BoundingBox where
  "wide_box =
     \<lparr>center_x = 1/4, center_y = 1/8, width = 1/10, height = 1/20, confidence = 9/10,
      class_label = ''particle''\<rparr>"


text \<open>
  Two submissions. The first image holds one box, \<^term>\<open>example_box (9/10)\<close>; the second
  image holds one box, \<^const>\<open>wide_box\<close>. The result of the first image's call arrives
  after the second image's detection has settled.
\<close>

definition first_result :: "particle list" where
  "first_result = [spread_box (example_box (9/10)) 0 (Some (analysis_of ''Fiber'' None))]"

definition overlapping_submissions :: "event list" where
  "overlapping_submissions =
     [Submit ''first'',
      DetectionSettled (1/2) (DetectionData (detector_reply (Some 200) (Some 100))),
      Submit ''second'',
      DetectionSettled (1/2) (DetectionData (detector_reply (Some 400) (Some 400))),
      AnalysisSettled (JsonBody True ''200''
        \<lparr>data_error = None, data_particles = Some first_result\<rparr>)]"

section \<open>The merge step preserves the detections\<close>

lemma find_pred_iff: "find_pred i item \<longleftrightarrow> has_numeric_index item i"
  by (cases item) (auto simp: find_pred_def split: option.splits)

lemma box_of_spread [simp]: "box_of (spread_box b i a) = b"
  by (simp add: box_of_def spread_box_def)

lemma index_spread [simp]: "index (spread_box b i a) = i"
  by (simp add: spread_box_def)

lemma analysis_spread [simp]: "analysis (spread_box b i a) = a"
  by (simp add: spread_box_def)

lemma confidence_spread [simp]: "confidence (spread_box b i a) = confidence b"
  by (simp add: spread_box_def)

lemma length_finalParticles: "length (finalParticles bs ps) = length bs"
  by (simp add: finalParticles_def)

lemma nth_finalParticles:
  "i < length bs \<Longrightarrow> finalParticles bs ps ! i = merge_one ps (i, bs ! i)"
  by (simp add: finalParticles_def nth_enumerate_eq)

lemma merge_one_found:
  assumes "j < length ps" and "has_numeric_index (ps ! j) i"
    and "\<forall>k < j. \<not> has_numeric_index (ps ! k) i"
  shows "analysis (merge_one ps (i, b)) = get_prop (ps ! j) ''analysis''"
proof -
  have "List.find (find_pred i) ps = Some (ps ! j)"
    unfolding find_Some_iff using assms by (auto simp: find_pred_iff)
  then show ?thesis by (simp add: merge_one_def)
qed

lemma merge_one_missing:
  assumes "\<forall>j < length ps. \<not> has_numeric_index (ps ! j) i"
  shows "analysis (merge_one ps (i, b)) = not_analyzed"
proof -
  have "List.find (find_pred i) ps = None"
    unfolding find_None_iff using assms by (auto simp: find_pred_iff in_set_conv_nth)
  then show ?thesis by (simp add: merge_one_def)
qed

lemma merge_one_box [simp]: "box_of (merge_one ps (i, b)) = b"
  by (simp add: merge_one_def)

lemma merge_one_index [simp]: "index (merge_one ps (i, b)) = i"
  by (simp add: merge_one_def)

text \<open>
  C1 (as amended). For every list of boxes and every parsed list, \<^const>\<open>finalParticles\<close>
  returns one particle per box, in the order of the boxes: the particle at position \<open>i\<close>
  has the geometry of box \<open>i\<close> and index \<open>i\<close>; its analysis is that of the first parsed
  entry whose numeric index is \<open>i\<close>, and the literal \<^const>\<open>not_analyzed\<close> of the source
  (reason "Index not found in AI response." with its full stop) when there is none.
\<close>

theorem merge_keeps_every_box:
  "length (finalParticles bs ps) = length bs \<and>
   (\<forall>i < length bs.
      box_of (finalParticles bs ps ! i) = bs ! i \<and>
      index (finalParticles bs ps ! i) = i \<and>
      (\<forall>j < length ps.
         has_numeric_index (ps ! j) i \<and> (\<forall>k < j. \<not> has_numeric_index (ps ! k) i) \<longrightarrow>
         analysis (finalParticles bs ps ! i) = get_prop (ps ! j) ''analysis'') \<and>
      ((\<forall>j < length ps. \<not> has_numeric_index (ps ! j) i) \<longrightarrow>
         analysis (finalParticles bs ps ! i) = not_analyzed))"
proof (intro conjI allI impI)
  show "length (finalParticles bs ps) = length bs"
    by (rule length_finalParticles)
next
  fix i assume "i < length bs"
  then show "box_of (finalParticles bs ps ! i) = bs ! i"
    by (simp add: nth_finalParticles)
next
  fix i assume "i < length bs"
  then show "index (finalParticles bs ps ! i) = i"
    by (simp add: nth_finalParticles)
next
  fix i j
  assume "i < length bs" and "j < length ps"
    and "has_numeric_index (ps ! j) i \<and> (\<forall>k < j. \<not> has_numeric_index (ps ! k) i)"
  then show "analysis (finalParticles bs ps ! i) = get_prop (ps ! j) ''analysis''"
    by (simp add: nth_finalParticles merge_one_found)
next
  fix i
  assume "i < length bs" and "\<forall>j < length ps. \<not> has_numeric_index (ps ! j) i"
  then show "analysis (finalParticles bs ps ! i) = not_analyzed"
    by (simp add: nth_finalParticles merge_one_missing)
qed

lemma example_parsed_nth:
  "example_parsed ! 0 = JObj [(''index'', JNum 1), (''analysis'', fiber_blue)]"
  "example_parsed ! 5 = JObj [(''index'', JNum 0), (''analysis'', film_clear)]"
  "length example_parsed = 6"
  by (simp_all add: example_parsed_def)

lemma example_parsed_index:
  "has_numeric_index (example_parsed ! j) i \<longleftrightarrow>
     (j = 0 \<and> i = 1) \<or> (j = 3 \<and> i = 7) \<or> (j = 4 \<and> i = 1) \<or> (j = 5 \<and> i = 0)"
  if "j < 6"
proof -
  from that consider "j = 0" | "j = 1" | "j = 2" | "j = 3" | "j = 4" | "j = 5"
    by linarith
  then show ?thesis
    by cases (auto simp: example_parsed_def)
qed

theorem merge_keeps_every_box_witness:
  "length (finalParticles example_boxes example_parsed) = 3 \<and>
   box_of (finalParticles example_boxes example_parsed ! 1) = example_box (4/5) \<and>
   index (finalParticles example_boxes example_parsed ! 1) = 1 \<and>
   analysis (finalParticles example_boxes example_parsed ! 1) = fiber_blue \<and>
   analysis (finalParticles example_boxes example_parsed ! 0) = film_clear \<and>
   analysis (finalParticles example_boxes example_parsed ! 2) = not_analyzed"
proof -
  note m = merge_keeps_every_box [of example_boxes example_parsed]
  have len: "length example_boxes = 3"
    by (simp add: example_boxes_def)
  have b1: "example_boxes ! 1 = example_box (4/5)"
    by (simp add: example_boxes_def)
  have at0: "0 < length example_boxes" and at1: "1 < length example_boxes"
    and at2: "2 < length example_boxes"
    by (simp_all add: len)
  note m0 = m [THEN conjunct2, THEN spec, of 0, THEN mp, OF at0]
  note m1 = m [THEN conjunct2, THEN spec, of 1, THEN mp, OF at1]
  note m2 = m [THEN conjunct2, THEN spec, of 2, THEN mp, OF at2]
  have first1: "has_numeric_index (example_parsed ! 0) 1 \<and>
      (\<forall>k < 0. \<not> has_numeric_index (example_parsed ! k) 1)"
    by (simp add: example_parsed_index)
  have first0: "has_numeric_index (example_parsed ! 5) 0 \<and>
      (\<forall>k < 5. \<not> has_numeric_index (example_parsed ! k) 0)"
    by (simp add: example_parsed_index)
  have none2: "\<forall>j < length example_parsed. \<not> has_numeric_index (example_parsed ! j) 2"
    by (simp add: example_parsed_index example_parsed_nth)
  have in0: "0 < length example_parsed" and in5: "5 < length example_parsed"
    by (simp_all add: example_parsed_nth)
  from m len have "length (finalParticles example_boxes example_parsed) = 3"
    by simp
  moreover from m1 b1
  have "box_of (finalParticles example_boxes example_parsed ! 1) = example_box (4/5)"
    by simp
  moreover from m1
  have "index (finalParticles example_boxes example_parsed ! 1) = 1"
    by simp
  moreover
  have "analysis (finalParticles example_boxes example_parsed ! 1) = fiber_blue"
    using m1 [THEN conjunct2, THEN conjunct2, THEN conjunct1, THEN spec, of 0, THEN mp,
        OF in0, THEN mp, OF first1]
    by (simp add: example_parsed_nth)
  moreover
  have "analysis (finalParticles example_boxes example_parsed ! 0) = film_clear"
    using m0 [THEN conjunct2, THEN conjunct2, THEN conjunct1, THEN spec, of 5, THEN mp,
        OF in5, THEN mp, OF first0]
    by (simp add: example_parsed_nth)
  moreover
  have "analysis (finalParticles example_boxes example_parsed ! 2) = not_analyzed"
    using m2 [THEN conjunct2, THEN conjunct2, THEN conjunct2, THEN mp, OF none2]
    by simp
  ultimately show ?thesis by blast
qed

text \<open>
  The claim names the reason "Index not found in AI response" without the full stop: the
  analysis attached to an unmatched box is not that value.
\<close>

theorem merge_sentinel_counterexample:
  "analysis (finalParticles [example_box (9/10)] [] ! 0) \<noteq> spec_sentinel"
  by (simp add: finalParticles_def merge_one_def not_analyzed_def spec_sentinel_def)

section \<open>Normalisation and the annotation rectangle\<close>

lemma valid_scenario_a_prediction: "valid_prediction scenario_a_prediction"
  by (simp add: valid_prediction_def scenario_a_prediction_def)

lemma normalized_scenario_a:
  "normalized_box w h scenario_a_prediction =
     \<lparr>center_x = 100 / w, center_y = 50 / h, width = 40 / w, height = 20 / h,
      confidence = 9/10, class_label = ''particle''\<rparr>"
  by (simp add: normalized_box_def scenario_a_prediction_def)

lemma process_detector_reply:
  "w \<noteq> 0 \<Longrightarrow> h \<noteq> 0 \<Longrightarrow>
   processRoboflowResults (detector_reply (Some w) (Some h)) =
     Inr [\<lparr>center_x = 100 / w, center_y = 50 / h, width = 40 / w, height = 20 / h,
           confidence = 9/10, class_label = ''particle''\<rparr>]"
  by (simp add: processRoboflowResults_def detector_reply_def valid_scenario_a_prediction
      normalized_scenario_a)

text \<open>
  Drawing a normalized box on a canvas of the image's own size gives back the rectangle of
  the prediction: the centre minus half the size, and the size.
\<close>

lemma denormalize_normalized:
  assumes "imgWidth \<noteq> 0" and "imgHeight \<noteq> 0"
  shows "denormalize (normalized_box imgWidth imgHeight pred) imgWidth imgHeight =
     \<lparr>topLeftX = number_of (get_prop pred ''x'') - number_of (get_prop pred ''width'') / 2,
      topLeftY = number_of (get_prop pred ''y'') - number_of (get_prop pred ''height'') / 2,
      widthPx = number_of (get_prop pred ''width''),
      heightPx = number_of (get_prop pred ''height'')\<rparr>"
  using assms by (simp add: denormalize_def normalized_box_def Let_def)

text \<open>
  C5 (as amended). Normalising the raw prediction \<^verbatim>\<open>{x:100, y:50, width:40, height:20,
  confidence:0.9, class:"particle"}\<close> against a 200 by 100 image yields the relative box
  \<^verbatim>\<open>{x:0.5, y:0.5, width:0.2, height:0.2}\<close>, and the rectangle of that box on a 400 by
  200 canvas has top-left corner (160, 80), width 80 and height 40.
\<close>

theorem scenario_a_geometry:
  "processRoboflowResults (detector_reply (Some 200) (Some 100)) = Inr [example_box (9/10)] \<and>
   denormalize (example_box (9/10)) 400 200 =
     \<lparr>topLeftX = 160, topLeftY = 80, widthPx = 80, heightPx = 40\<rparr>"
proof
  show "processRoboflowResults (detector_reply (Some 200) (Some 100)) = Inr [example_box (9/10)]"
    by (simp add: process_detector_reply example_box_def)
  show "denormalize (example_box (9/10)) 400 200 =
     \<lparr>topLeftX = 160, topLeftY = 80, widthPx = 80, heightPx = 40\<rparr>"
    by (simp add: denormalize_def example_box_def Let_def)
qed

text \<open>The corner (140, 70) of the claim is not the corner the code computes.\<close>

theorem scenario_a_counterexample:
  "topLeftX (denormalize (example_box (9/10)) 400 200) \<noteq> 140 \<and>
   topLeftY (denormalize (example_box (9/10)) 400 200) \<noteq> 70"
  by (simp add: denormalize_def example_box_def Let_def)

text \<open>
  C6 (as amended). \<^const>\<open>processRoboflowResults\<close> fails with \<open>InvalidDetectionData\<close>
  exactly when the image information, the width or the height is missing or zero; with
  any other dimensions, negative ones included, it returns boxes.
\<close>

theorem invalid_dimensions_iff:
  "processRoboflowResults d = Inl InvalidDetectionData \<longleftrightarrow>
     (case image d of
        None \<Rightarrow> True
      | Some im \<Rightarrow> image_width im = None \<or> image_width im = Some 0
                   \<or> image_height im = None \<or> image_height im = Some 0)"
proof (cases "image d")
  case None
  then show ?thesis by (simp add: processRoboflowResults_def)
next
  case (Some im)
  have "falsy_number v \<longleftrightarrow> v = None \<or> v = Some 0" for v
    by (cases v) auto
  with Some show ?thesis
    by (auto simp: processRoboflowResults_def split: option.splits)
qed

theorem invalid_dimensions_iff_witness:
  "processRoboflowResults (detector_reply None (Some 100)) = Inl InvalidDetectionData \<and>
   processRoboflowResults (detector_reply (Some 200) (Some 0)) = Inl InvalidDetectionData \<and>
   processRoboflowResults (detector_reply (Some 200) (Some 100)) \<noteq> Inl InvalidDetectionData"
  using invalid_dimensions_iff [of "detector_reply None (Some 100)"]
    invalid_dimensions_iff [of "detector_reply (Some 200) (Some 0)"]
    invalid_dimensions_iff [of "detector_reply (Some 200) (Some 100)"]
  by (simp add: detector_reply_def)

text \<open>A negative width is accepted: the boxes come out with negative coordinates.\<close>

theorem negative_width_counterexample:
  "processRoboflowResults (detector_reply (Some (- 200)) (Some 100)) =
     Inr [\<lparr>center_x = - (1/2), center_y = 1/2, width = - (1/5), height = 1/5,
           confidence = 9/10, class_label = ''particle''\<rparr>]"
  by (simp add: process_detector_reply)

section \<open>Bracket extraction is insensitive to the wrapping text\<close>

lemma indexOf_lower: "- 1 \<le> indexOf s c"
  by (induction s) (auto simp: Let_def)

lemma indexOf_absent_iff: "indexOf s c = - 1 \<longleftrightarrow> c \<notin> set s"
proof (induction s)
  case Nil
  show ?case by simp
next
  case (Cons d s)
  have "indexOf s c + 1 \<noteq> - 1"
    using indexOf_lower [of s c] by simp
  with Cons show ?case
    by (auto simp: Let_def)
qed

lemma indexOf_nonneg: "indexOf s c \<noteq> - 1 \<Longrightarrow> 0 \<le> indexOf s c"
  using indexOf_lower [of s c] by simp

lemma indexOf_less: "indexOf s c < int (length s)"
  by (induction s) (auto simp: Let_def)

lemma indexOf_append:
  "indexOf (p @ t) c =
     (if c \<in> set p then indexOf p c
      else if c \<in> set t then int (length p) + indexOf t c else - 1)"
proof (induction p)
  case Nil
  show ?case by (simp add: indexOf_absent_iff)
next
  case (Cons d p)
  have "c \<in> set t \<Longrightarrow> int (length p) + indexOf t c \<noteq> - 1"
    using indexOf_nonneg [of t c] by (simp add: indexOf_absent_iff)
  with Cons show ?case
    by (auto simp: Let_def indexOf_absent_iff)
qed

lemma lastIndexOf_lower: "- 1 \<le> lastIndexOf s c"
  by (induction s) (auto simp: Let_def)

lemma lastIndexOf_absent_iff: "lastIndexOf s c = - 1 \<longleftrightarrow> c \<notin> set s"
proof (induction s)
  case Nil
  show ?case by simp
next
  case (Cons d s)
  have "lastIndexOf s c + 1 \<noteq> - 1"
    using lastIndexOf_lower [of s c] by simp
  with Cons show ?case
    by (auto simp: Let_def)
qed

lemma lastIndexOf_nonneg: "lastIndexOf s c \<noteq> - 1 \<Longrightarrow> 0 \<le> lastIndexOf s c"
  using lastIndexOf_lower [of s c] by simp

lemma lastIndexOf_less: "lastIndexOf s c < int (length s)"
  by (induction s) (auto simp: Let_def)

lemma lastIndexOf_append:
  "lastIndexOf (p @ t) c =
     (if c \<in> set t then int (length p) + lastIndexOf t c else lastIndexOf p c)"
proof (induction p)
  case Nil
  show ?case by (simp add: lastIndexOf_absent_iff)
next
  case (Cons d p)
  show ?case
  proof (cases "c \<in> set t")
    case True
    then have "lastIndexOf t c \<noteq> - 1"
      by (simp add: lastIndexOf_absent_iff)
    then have "0 \<le> lastIndexOf t c"
      by (rule lastIndexOf_nonneg)
    with True Cons show ?thesis
      by (simp add: Let_def)
  next
    case False
    with Cons show ?thesis
      by (simp add: Let_def)
  qed
qed

text \<open>The two searches return the first and the last occurrence.\<close>

lemma indexOf_first:
  "c \<in> set s \<Longrightarrow>
   s ! nat (indexOf s c) = c \<and> (\<forall>k < nat (indexOf s c). s ! k \<noteq> c)"
proof (induction s)
  case Nil
  then show ?case by simp
next
  case (Cons d s)
  show ?case
  proof (cases "d = c")
    case True
    then show ?thesis by simp
  next
    case False
    with Cons.prems have in_s: "c \<in> set s"
      by simp
    then have "indexOf s c \<noteq> - 1"
      by (simp add: indexOf_absent_iff)
    then have nn: "0 \<le> indexOf s c"
      by (rule indexOf_nonneg)
    then have pos: "nat (indexOf s c + 1) = Suc (nat (indexOf s c))"
      by simp
    from False \<open>indexOf s c \<noteq> - 1\<close> have "indexOf (d # s) c = indexOf s c + 1"
      by (simp add: Let_def)
    with Cons.IH [OF in_s] False pos show ?thesis
      by (auto simp: less_Suc_eq_0_disj)
  qed
qed

lemma lastIndexOf_last:
  "c \<in> set s \<Longrightarrow>
   s ! nat (lastIndexOf s c) = c \<and>
   (\<forall>k. nat (lastIndexOf s c) < k \<and> k < length s \<longrightarrow> s ! k \<noteq> c)"
proof (induction s)
  case Nil
  then show ?case by simp
next
  case (Cons d s)
  show ?case
  proof (cases "c \<in> set s")
    case True
    then have ne: "lastIndexOf s c \<noteq> - 1"
      by (simp add: lastIndexOf_absent_iff)
    then have "0 \<le> lastIndexOf s c"
      by (rule lastIndexOf_nonneg)
    then have pos: "nat (lastIndexOf s c + 1) = Suc (nat (lastIndexOf s c))"
      by simp
    from ne have "lastIndexOf (d # s) c = lastIndexOf s c + 1"
      by (simp add: Let_def)
    with Cons.IH [OF True] pos show ?thesis
      by (auto simp: nth_Cons split: nat.splits)
  next
    case False
    with Cons.prems have "d = c"
      by simp
    moreover from False have "lastIndexOf s c = - 1"
      by (simp add: lastIndexOf_absent_iff)
    ultimately have "lastIndexOf (d # s) c = 0"
      by (simp add: Let_def)
    with False \<open>d = c\<close> show ?thesis
      by (auto simp: nth_Cons split: nat.splits)
  qed
qed

lemma substring_in_range:
  assumes "0 \<le> a" and "a \<le> b" and "b \<le> int (length s)"
  shows "substring s a b = take (nat (b - a)) (drop (nat a) s)"
proof -
  have "min a (int (length s)) = a" "min b (int (length s)) = b"
    using assms by simp_all
  moreover have "max 0 a = a" "max 0 b = b" "min a b = a" "max a b = b"
    using assms by simp_all
  ultimately show ?thesis
    unfolding substring_def Let_def by simp
qed

lemma substring_inside:
  assumes "0 \<le> a" and "a \<le> b" and "b \<le> int (length t)"
  shows "substring (p @ t @ s) (int (length p) + a) (int (length p) + b) = substring t a b"
proof -
  have "substring (p @ t @ s) (int (length p) + a) (int (length p) + b) =
      take (nat (int (length p) + b - (int (length p) + a)))
        (drop (nat (int (length p) + a)) (p @ t @ s))"
    using assms by (intro substring_in_range) simp_all
  also have "nat (int (length p) + a) = length p + nat a"
    using assms by simp
  also have "int (length p) + b - (int (length p) + a) = b - a"
    by simp
  also have "drop (length p + nat a) (p @ t @ s) = drop (nat a) (t @ s)"
    by (simp add: drop_append)
  also have "take (nat (b - a)) (drop (nat a) (t @ s)) = take (nat (b - a)) (drop (nat a) t)"
    using assms by simp
  also have "\<dots> = substring t a b"
    using assms by (simp add: substring_in_range)
  finally show ?thesis .
qed

lemma extraction_ignores_wrapping:
  assumes p: "open_bracket \<notin> set p" and s: "close_bracket \<notin> set s"
  shows "extractionAttempt (p @ t @ s) = extractionAttempt t"
proof (cases "open_bracket \<in> set t \<and> close_bracket \<in> set t")
  case True
  define a where "a = indexOf t open_bracket"
  define b where "b = lastIndexOf t close_bracket"
  have a: "a \<noteq> - 1" "0 \<le> a" "a < int (length t)"
    using True indexOf_nonneg [of t open_bracket] indexOf_less [of t open_bracket]
    by (simp_all add: a_def indexOf_absent_iff)
  have b: "b \<noteq> - 1" "0 \<le> b" "b < int (length t)"
    using True lastIndexOf_nonneg [of t close_bracket] lastIndexOf_less [of t close_bracket]
    by (simp_all add: b_def lastIndexOf_absent_iff)
  have start: "indexOf (p @ t @ s) open_bracket = int (length p) + a"
    using True p by (simp add: indexOf_append a_def)
  have "lastIndexOf (p @ t @ s) close_bracket = lastIndexOf (p @ t) close_bracket"
    using s lastIndexOf_append [of "p @ t" s close_bracket] by simp
  then have finish: "lastIndexOf (p @ t @ s) close_bracket = int (length p) + b"
    using True by (simp add: lastIndexOf_append b_def)
  show ?thesis
  proof (cases "b > a")
    case gt: True
    have "substring (p @ t @ s) (int (length p) + a) (int (length p) + (b + 1)) =
        substring t a (b + 1)"
      using a b gt by (intro substring_inside) simp_all
    then show ?thesis
      using a b gt start finish
      by (simp add: extractionAttempt_def Let_def a_def [symmetric] b_def [symmetric] add.assoc)
  next
    case False
    then show ?thesis
      using a b start finish
      by (simp add: extractionAttempt_def Let_def a_def [symmetric] b_def [symmetric])
  qed
next
  case False
  have bare: "extractionAttempt t = Inl NoArrayFound"
    using False by (auto simp: extractionAttempt_def Let_def indexOf_absent_iff lastIndexOf_absent_iff)
  have last_eq: "lastIndexOf (p @ t @ s) close_bracket = lastIndexOf (p @ t) close_bracket"
    using s lastIndexOf_append [of "p @ t" s close_bracket] by simp
  have "\<not> (indexOf (p @ t @ s) open_bracket \<noteq> - 1
         \<and> lastIndexOf (p @ t @ s) close_bracket \<noteq> - 1
         \<and> lastIndexOf (p @ t @ s) close_bracket > indexOf (p @ t @ s) open_bracket)"
  proof (cases "open_bracket \<in> set t")
    case True
    with False have nb: "close_bracket \<notin> set t" by simp
    have "indexOf (p @ t @ s) open_bracket = int (length p) + indexOf t open_bracket"
      using True p by (simp add: indexOf_append)
    moreover have "0 \<le> indexOf t open_bracket"
      using True by (intro indexOf_nonneg) (simp add: indexOf_absent_iff)
    moreover have "lastIndexOf (p @ t @ s) close_bracket = lastIndexOf p close_bracket"
      using nb last_eq by (simp add: lastIndexOf_append)
    moreover have "lastIndexOf p close_bracket < int (length p)"
      by (rule lastIndexOf_less)
    ultimately show ?thesis by simp
  next
    case nt: False
    show ?thesis
    proof (cases "open_bracket \<in> set s")
      case True
      have "indexOf (p @ t @ s) open_bracket = int (length p) + (int (length t) + indexOf s open_bracket)"
        using True nt p by (simp add: indexOf_append)
      moreover have "0 \<le> indexOf s open_bracket"
        using True by (intro indexOf_nonneg) (simp add: indexOf_absent_iff)
      moreover have "lastIndexOf (p @ t) close_bracket < int (length (p @ t))"
        by (rule lastIndexOf_less)
      ultimately show ?thesis
        using last_eq by simp
    next
      case False
      with nt p have "indexOf (p @ t @ s) open_bracket = - 1"
        by (simp add: indexOf_absent_iff)
      then show ?thesis by simp
    qed
  qed
  then have "extractionAttempt (p @ t @ s) = Inl NoArrayFound"
    by (simp add: extractionAttempt_def Let_def)
  with bare show ?thesis by simp
qed

text \<open>
  A string that starts with \<open>[\<close> and ends with \<open>]\<close>, as a JSON array text does, is
  extracted whole.
\<close>

lemma extraction_of_array_text:
  "extractionAttempt (open_bracket # body @ [close_bracket]) =
     Inr (open_bracket # body @ [close_bracket])"
proof -
  have neq: "open_bracket \<noteq> close_bracket"
    by (simp add: open_bracket_def close_bracket_def)
  have "lastIndexOf (open_bracket # body @ [close_bracket]) close_bracket =
      int (length body) + 1"
    using lastIndexOf_append [of "open_bracket # body" "[close_bracket]" close_bracket]
    by simp
  then show ?thesis
    using neq by (simp add: extractionAttempt_def Let_def substring_def)
qed

text \<open>
  C7. For every text \<open>t\<close> (a well-formed JSON array text in particular), a prefix without
  \<open>[\<close> and a suffix without \<open>]\<close> do not change the result of parsing: the parsed array, or
  the failure, is that of the bare text. The reply of Scenario C parses to what
  \<^verbatim>\<open>JSON.parse\<close> makes of its bare array text; when that is the one-element array the
  text denotes, the result is this array, and its entry has index 0.
\<close>

theorem parse_ignores_wrapping:
  "(open_bracket \<notin> set prefix \<and> close_bracket \<notin> set suffix \<longrightarrow>
      parseResponse json_parse (prefix @ t @ suffix) = parseResponse json_parse t) \<and>
   parseResponse json_parse scenario_c_text = parseResponse json_parse scenario_c_array \<and>
   (json_parse scenario_c_array = Some (JArr [scenario_c_entry]) \<longrightarrow>
      parseResponse json_parse scenario_c_text = Inr [scenario_c_entry] \<and>
      has_numeric_index scenario_c_entry 0)"
proof (intro conjI impI)
  assume "open_bracket \<notin> set prefix \<and> close_bracket \<notin> set suffix"
  then show "parseResponse json_parse (prefix @ t @ suffix) = parseResponse json_parse t"
    by (simp add: parseResponse_def extraction_ignores_wrapping)
next
  have "open_bracket \<notin> set (''Sure! ```json'' @ [newline])"
    by (simp add: open_bracket_def newline_def)
  moreover have "close_bracket \<notin> set ([newline] @ ''```'')"
    by (simp add: close_bracket_def newline_def)
  ultimately have "extractionAttempt ((''Sure! ```json'' @ [newline]) @ scenario_c_array
      @ ([newline] @ ''```'')) = extractionAttempt scenario_c_array"
    by (rule extraction_ignores_wrapping)
  then have same: "extractionAttempt scenario_c_text = extractionAttempt scenario_c_array"
    by (simp add: scenario_c_text_def)
  then show wrapped: "parseResponse json_parse scenario_c_text =
      parseResponse json_parse scenario_c_array"
    by (simp add: parseResponse_def)
  have "extractionAttempt scenario_c_array = Inr scenario_c_array"
    unfolding scenario_c_array_def by (rule extraction_of_array_text)
  moreover have "scenario_c_array \<noteq> []"
    by (simp add: scenario_c_array_def)
  moreover assume "json_parse scenario_c_array = Some (JArr [scenario_c_entry])"
  ultimately have "parseResponse json_parse scenario_c_array = Inr [scenario_c_entry]"
    by (simp add: parseResponse_def)
  with wrapped show "parseResponse json_parse scenario_c_text = Inr [scenario_c_entry]"
    by simp
next
  show "has_numeric_index scenario_c_entry 0"
    by (simp add: scenario_c_entry_def)
qed

theorem parse_ignores_wrapping_witness:
  "parseResponse (decoder_for scenario_c_array (JArr [scenario_c_entry]))
       ((''Sure! ```json'' @ [newline]) @ scenario_c_array @ ([newline] @ ''```'')) =
     parseResponse (decoder_for scenario_c_array (JArr [scenario_c_entry])) scenario_c_array \<and>
   parseResponse (decoder_for scenario_c_array (JArr [scenario_c_entry])) scenario_c_text =
     Inr [scenario_c_entry] \<and>
   has_numeric_index scenario_c_entry 0"
proof -
  have "open_bracket \<notin> set (''Sure! ```json'' @ [newline])
      \<and> close_bracket \<notin> set ([newline] @ ''```'')"
    by (simp add: open_bracket_def close_bracket_def newline_def)
  moreover have "decoder_for scenario_c_array (JArr [scenario_c_entry]) scenario_c_array =
      Some (JArr [scenario_c_entry])"
    by (simp add: decoder_for_def)
  ultimately show ?thesis
    using parse_ignores_wrapping [where prefix = "''Sure! ```json'' @ [newline]"
        and suffix = "[newline] @ ''```''" and t = scenario_c_array
        and json_parse = "decoder_for scenario_c_array (JArr [scenario_c_entry])"]
    by blast
qed

section \<open>Escaping of CSV fields\<close>

lemma regex_test_iff:
  "regex_test s \<longleftrightarrow> comma \<in> set s \<or> dquote \<in> set s \<or> newline \<in> set s"
  by (induction s) auto

lemma replace_quotes_concat:
  "replace_quotes s = concat (map (\<lambda>c. if c = dquote then [dquote, dquote] else [c]) s)"
  by (induction s) simp_all

lemma separators_differ:
  "comma \<noteq> dquote" "comma \<noteq> newline" "newline \<noteq> dquote"
  "dquote \<noteq> comma" "newline \<noteq> comma" "dquote \<noteq> newline"
  by (simp_all add: comma_def dquote_def newline_def)

lemma escapeCsvField_emitted: "escapeCsvField s = emitted_field s"
  by (simp add: escapeCsvField_def emitted_field_def regex_test_iff replace_quotes_concat)

text \<open>The export is the header line followed by one line for each displayed particle.\<close>

lemma csvContent_lines:
  "csvContent show_index toFixed ps =
     join newline (map csv_line (csv_headers # map (csv_row show_index toFixed) ps))"
  by (simp add: csvContent_def comp_def)

subsection \<open>Reading the export back\<close>

lemma read_plain_end:
  "at_separator rest \<Longrightarrow> read_csv_from InPlain field row rows rest = field_end field row rows rest"
  by (cases rest) (auto simp: at_separator_def field_end_def separators_differ)

lemma read_start_end:
  "at_separator rest \<Longrightarrow> read_csv_from FieldStart [] row rows rest = field_end [] row rows rest"
  by (cases rest) (auto simp: at_separator_def field_end_def separators_differ)

lemma read_after_quote_end:
  "at_separator rest \<Longrightarrow>
   read_csv_from AfterQuote field row rows rest = field_end field row rows rest"
  by (cases rest) (auto simp: at_separator_def field_end_def separators_differ)

lemma read_plain_run:
  assumes "\<not> regex_test s" and "at_separator rest"
  shows "read_csv_from InPlain field row rows (s @ rest) = field_end (field @ s) row rows rest"
  using assms(1)
proof (induction s arbitrary: field)
  case Nil
  show ?case
    using assms(2) by (simp add: read_plain_end)
next
  case (Cons c s)
  then have "c \<noteq> dquote" "c \<noteq> comma" "c \<noteq> newline" "\<not> regex_test s"
    by simp_all
  with Cons.IH [of "field @ [c]"] show ?case
    by simp
qed

lemma read_plain_field:
  assumes "\<not> regex_test s" and "at_separator rest"
  shows "read_csv_from FieldStart [] row rows (s @ rest) = field_end s row rows rest"
proof (cases s)
  case Nil
  with assms(2) show ?thesis
    by (simp add: read_start_end)
next
  case (Cons c s')
  with assms(1) have "c \<noteq> dquote" "c \<noteq> comma" "c \<noteq> newline" "\<not> regex_test s'"
    by simp_all
  with read_plain_run [OF \<open>\<not> regex_test s'\<close> assms(2), of "[c]" row rows] Cons
  show ?thesis
    by simp
qed

lemma read_quoted_run:
  assumes "at_separator rest"
  shows "read_csv_from InQuoted field row rows (replace_quotes s @ dquote # rest) =
     field_end (field @ s) row rows rest"
proof (induction s arbitrary: field)
  case Nil
  show ?case
    using assms by (simp add: read_after_quote_end)
next
  case (Cons c s)
  show ?case
  proof (cases "c = dquote")
    case True
    with Cons.IH [of "field @ [dquote]"] show ?thesis
      by simp
  next
    case False
    with Cons.IH [of "field @ [c]"] show ?thesis
      by simp
  qed
qed

lemma read_field:
  assumes "at_separator rest"
  shows "read_csv_from FieldStart [] row rows (escapeCsvField s @ rest) =
     field_end s row rows rest"
proof (cases "regex_test s")
  case True
  with read_quoted_run [OF assms, of "[]" row rows s] show ?thesis
    by (simp add: escapeCsvField_def)
next
  case False
  with read_plain_field [OF False assms, of row rows] show ?thesis
    by (simp add: escapeCsvField_def)
qed

lemma read_record:
  assumes "rest = [] \<or> hd rest = newline"
  shows "read_csv_from FieldStart [] row rows (join comma (map escapeCsvField (f # fs)) @ rest) =
     record_end (row @ f # fs) rows rest"
proof (induction fs arbitrary: f row)
  case Nil
  have "at_separator rest"
    using assms by (auto simp: at_separator_def)
  then have "read_csv_from FieldStart [] row rows (escapeCsvField f @ rest) =
      field_end f row rows rest"
    by (rule read_field)
  also have "\<dots> = record_end (row @ [f]) rows rest"
    using assms by (cases rest) (auto simp: field_end_def record_end_def separators_differ)
  finally show ?case
    by simp
next
  case (Cons g gs)
  have sep: "at_separator (comma # join comma (map escapeCsvField (g # gs)) @ rest)"
    by (simp add: at_separator_def)
  have "read_csv_from FieldStart [] row rows
      (escapeCsvField f @ comma # join comma (map escapeCsvField (g # gs)) @ rest) =
      field_end f row rows (comma # join comma (map escapeCsvField (g # gs)) @ rest)"
    using sep by (rule read_field)
  also have "\<dots> = read_csv_from FieldStart [] (row @ [f]) rows
      (join comma (map escapeCsvField (g # gs)) @ rest)"
    by (simp add: field_end_def)
  also have "\<dots> = record_end ((row @ [f]) @ g # gs) rows rest"
    by (rule Cons.IH)
  finally show ?case
    by simp
qed

lemma read_records:
  assumes "r \<noteq> []" and "\<forall>x \<in> set rs. x \<noteq> []"
  shows "read_csv_from FieldStart [] [] rows (join newline (map csv_line (r # rs))) =
     Some (rows @ r # rs)"
  using assms
proof (induction rs arbitrary: r rows)
  case Nil
  then obtain f fs where r: "r = f # fs"
    by (cases r) auto
  have line: "csv_line r = join comma (map escapeCsvField (f # fs))"
    by (simp add: r csv_line_def)
  have "read_csv_from FieldStart [] [] rows (join comma (map escapeCsvField (f # fs)) @ []) =
      record_end ([] @ f # fs) rows []"
    by (rule read_record) simp
  then show ?case
    by (simp add: r csv_line_def record_end_def)
next
  case (Cons r2 rs)
  then obtain f fs where r: "r = f # fs"
    by (cases r) auto
  from Cons.prems have r2: "r2 \<noteq> []" and rest: "\<forall>x \<in> set rs. x \<noteq> []"
    by simp_all
  have line: "csv_line r = join comma (map escapeCsvField (f # fs))"
    by (simp add: r csv_line_def)
  have "join newline (map csv_line (r # r2 # rs)) =
      csv_line r @ newline # join newline (map csv_line (r2 # rs))"
    by simp
  also have "read_csv_from FieldStart [] [] rows
      (csv_line r @ newline # join newline (map csv_line (r2 # rs))) =
      record_end ([] @ f # fs) rows (newline # join newline (map csv_line (r2 # rs)))"
    unfolding line by (rule read_record) simp
  also have "\<dots> = read_csv_from FieldStart [] [] (rows @ [r])
      (join newline (map csv_line (r2 # rs)))"
    by (simp add: record_end_def r)
  also have "\<dots> = Some ((rows @ [r]) @ r2 # rs)"
    using r2 rest by (rule Cons.IH)
  finally show ?case
    by simp
qed

lemma csv_row_columns:
  "csv_row show_index toFixed p =
     [show_index (index p), toFixed 1 (confidence p * 100), class_label p,
      toFixed 5 (center_x p), toFixed 5 (center_y p), toFixed 5 (width p), toFixed 5 (height p),
      (case analysis p of None \<Rightarrow> [] | Some a \<Rightarrow> text_or_empty (shape a)),
      (case analysis p of None \<Rightarrow> [] | Some a \<Rightarrow> text_or_empty (color a)),
      (case analysis p of None \<Rightarrow> [] | Some a \<Rightarrow> text_or_empty (transparency a)),
      (case analysis p of
         None \<Rightarrow> []
       | Some a \<Rightarrow> if text_or_empty (error a) \<noteq> [] then text_or_empty (error a)
                   else text_or_empty (reason a))]"
  by (simp add: csv_row_def analysis_field_def truthy_string_def text_or_empty_def
      split: option.splits)

lemma export_reads_back:
  "read_csv (csvContent show_index toFixed ps) =
     Some (csv_headers # map (csv_row show_index toFixed) ps)"
proof -
  have "csv_headers \<noteq> []"
    by (simp add: csv_headers_def)
  moreover have "\<forall>x \<in> set (map (csv_row show_index toFixed) ps). x \<noteq> []"
    by (simp add: csv_row_def)
  ultimately have "read_csv_from FieldStart [] [] []
      (join newline (map csv_line (csv_headers # map (csv_row show_index toFixed) ps))) =
      Some ([] @ csv_headers # map (csv_row show_index toFixed) ps)"
    by (rule read_records)
  then show ?thesis
    by (simp add: read_csv_def csvContent_lines)
qed

text \<open>
  C9. A field whose string value contains a comma, a double quote or a newline is emitted
  between double quotes with every double quote inside doubled, and a field with none of
  these characters is emitted unchanged. The tabular export is made of such fields and of
  nothing else: it is the header line followed by one line for each displayed particle,
  the lines separated by newlines and, within a line, the eleven fields of the particle
  (index, confidence, class, centre, size, shape, colour, transparency, note) separated by
  commas, each field emitted as said; and reading the export back as comma-separated
  text yields the header and, for each particle, exactly the string values of its fields.
\<close>

theorem csv_field_escaping:
  "(comma \<in> set s \<or> dquote \<in> set s \<or> newline \<in> set s \<longrightarrow>
      escapeCsvField s =
        [dquote] @ concat (map (\<lambda>c. if c = dquote then [dquote, dquote] else [c]) s) @ [dquote]) \<and>
   (comma \<notin> set s \<and> dquote \<notin> set s \<and> newline \<notin> set s \<longrightarrow> escapeCsvField s = s) \<and>
   csv_line row = join comma (map escapeCsvField row) \<and>
   csvContent show_index toFixed ps =
     join newline
       (map (\<lambda>row. join comma (map emitted_field row))
          (csv_headers # map (csv_row show_index toFixed) ps)) \<and>
   read_csv (csvContent show_index toFixed ps) =
     Some (csv_headers # map (csv_row show_index toFixed) ps) \<and>
   csv_row show_index toFixed p =
     [show_index (index p), toFixed 1 (confidence p * 100), class_label p,
      toFixed 5 (center_x p), toFixed 5 (center_y p), toFixed 5 (width p), toFixed 5 (height p),
      (case analysis p of None \<Rightarrow> [] | Some a \<Rightarrow> text_or_empty (shape a)),
      (case analysis p of None \<Rightarrow> [] | Some a \<Rightarrow> text_or_empty (color a)),
      (case analysis p of None \<Rightarrow> [] | Some a \<Rightarrow> text_or_empty (transparency a)),
      (case analysis p of
         None \<Rightarrow> []
       | Some a \<Rightarrow> if text_or_empty (error a) \<noteq> [] then text_or_empty (error a)
                   else text_or_empty (reason a))]"
proof (intro conjI)
  show "comma \<in> set s \<or> dquote \<in> set s \<or> newline \<in> set s \<longrightarrow>
      escapeCsvField s =
        [dquote] @ concat (map (\<lambda>c. if c = dquote then [dquote, dquote] else [c]) s) @ [dquote]"
    by (simp add: escapeCsvField_def regex_test_iff replace_quotes_concat)
  show "comma \<notin> set s \<and> dquote \<notin> set s \<and> newline \<notin> set s \<longrightarrow> escapeCsvField s = s"
    by (simp add: escapeCsvField_def regex_test_iff)
  show "csv_line row = join comma (map escapeCsvField row)"
    by (simp add: csv_line_def)
  have "escapeCsvField = emitted_field"
    by (rule ext) (rule escapeCsvField_emitted)
  then have "csv_line = (\<lambda>row. join comma (map emitted_field row))"
    by (intro ext) (simp add: csv_line_def)
  then show "csvContent show_index toFixed ps =
     join newline
       (map (\<lambda>row. join comma (map emitted_field row))
          (csv_headers # map (csv_row show_index toFixed) ps))"
    by (simp only: csvContent_lines)
  show "read_csv (csvContent show_index toFixed ps) =
     Some (csv_headers # map (csv_row show_index toFixed) ps)"
    by (rule export_reads_back)
  show "csv_row show_index toFixed p =
     [show_index (index p), toFixed 1 (confidence p * 100), class_label p,
      toFixed 5 (center_x p), toFixed 5 (center_y p), toFixed 5 (width p), toFixed 5 (height p),
      (case analysis p of None \<Rightarrow> [] | Some a \<Rightarrow> text_or_empty (shape a)),
      (case analysis p of None \<Rightarrow> [] | Some a \<Rightarrow> text_or_empty (color a)),
      (case analysis p of None \<Rightarrow> [] | Some a \<Rightarrow> text_or_empty (transparency a)),
      (case analysis p of
         None \<Rightarrow> []
       | Some a \<Rightarrow> if text_or_empty (error a) \<noteq> [] then text_or_empty (error a)
                   else text_or_empty (reason a))]"
    by (rule csv_row_columns)
qed

lemma awkward_row:
  "csv_row example_show_index example_toFixed awkward_particle =
     [''0'', ''90.0'', ''particle'', ''0.50000'', ''0.50000'', ''0.50000'', ''0.50000'',
      quoted_example, ''Blue'', [], ''two'' @ [newline] @ ''lines'']"
  by (simp add: csv_row_columns awkward_particle_def example_show_index_def example_toFixed_def
      example_box_def spread_box_def text_or_empty_def)

theorem csv_field_escaping_witness:
  "escapeCsvField quoted_example =
     [dquote] @ ''Fiber, '' @ [dquote, dquote] @ ''blue'' @ [dquote, dquote] @ [dquote] \<and>
   escapeCsvField ''Fragment'' = ''Fragment'' \<and>
   csv_line [''0'', quoted_example] =
     ''0,'' @ [dquote] @ ''Fiber, '' @ [dquote, dquote] @ ''blue'' @ [dquote, dquote] @ [dquote] \<and>
   read_csv (csvContent example_show_index example_toFixed [awkward_particle]) =
     Some [csv_headers,
           [''0'', ''90.0'', ''particle'', ''0.50000'', ''0.50000'', ''0.50000'', ''0.50000'',
            quoted_example, ''Blue'', [], ''two'' @ [newline] @ ''lines'']]"
proof -
  note t = csv_field_escaping [where show_index = example_show_index
      and toFixed = example_toFixed and p = awkward_particle]
  have special: "comma \<in> set quoted_example \<or> dquote \<in> set quoted_example
      \<or> newline \<in> set quoted_example"
    by (simp add: quoted_example_def)
  have plain: "comma \<notin> set ''Fragment'' \<and> dquote \<notin> set ''Fragment'' \<and> newline \<notin> set ''Fragment''"
    by (simp add: comma_def dquote_def newline_def)
  have zero: "comma \<notin> set ''0'' \<and> dquote \<notin> set ''0'' \<and> newline \<notin> set ''0''"
    by (simp add: comma_def dquote_def newline_def)
  have q: "escapeCsvField quoted_example =
      [dquote] @ ''Fiber, '' @ [dquote, dquote] @ ''blue'' @ [dquote, dquote] @ [dquote]"
    using t [where s = quoted_example, THEN conjunct1, THEN mp, OF special]
    by (simp add: quoted_example_def dquote_def)
  have f: "escapeCsvField ''Fragment'' = ''Fragment''"
    using t [where s = "''Fragment''", THEN conjunct2, THEN conjunct1, THEN mp, OF plain] .
  have z: "escapeCsvField ''0'' = ''0''"
    using t [where s = "''0''", THEN conjunct2, THEN conjunct1, THEN mp, OF zero] .
  have "csv_line [''0'', quoted_example] =
      join comma (map escapeCsvField [''0'', quoted_example])"
    using t [where row = "[''0'', quoted_example]", THEN conjunct2, THEN conjunct2, THEN conjunct1] .
  then have l: "csv_line [''0'', quoted_example] =
     ''0,'' @ [dquote] @ ''Fiber, '' @ [dquote, dquote] @ ''blue'' @ [dquote, dquote] @ [dquote]"
    by (simp add: q z comma_def)
  have r: "read_csv (csvContent example_show_index example_toFixed [awkward_particle]) =
     Some [csv_headers,
           [''0'', ''90.0'', ''particle'', ''0.50000'', ''0.50000'', ''0.50000'', ''0.50000'',
            quoted_example, ''Blue'', [], ''two'' @ [newline] @ ''lines'']]"
    using t [where ps = "[awkward_particle]", THEN conjunct2, THEN conjunct2, THEN conjunct2,
        THEN conjunct2, THEN conjunct1]
    by (simp add: awkward_row)
  from q f l r show ?thesis
    by (intro conjI)
qed

section \<open>Statistics over the displayed particles\<close>

lemma counted_iff: "counted p \<longleftrightarrow> analyzable p"
  by (auto simp: counted_def analyzable_def truthy_string_def split: option.splits)

lemma proto_is_member: "''__proto__'' \<in> set object_prototype_members"
  by (simp add: object_prototype_members_def)

lemma increment_apply:
  assumes "k' \<notin> set object_prototype_members"
  shows "increment m k k' = (if k' = k then add_count (m k) 1 else m k')"
proof (cases "k' = k")
  case True
  with assms proto_is_member have "k \<noteq> ''__proto__''" and "k \<notin> set object_prototype_members"
    by auto
  with True show ?thesis
    by (simp add: increment_def add_count_def split: option.splits entry.splits)
next
  case False
  then show ?thesis
    by (simp add: increment_def split: option.splits entry.splits)
qed

lemma add_count_add: "add_count (add_count v m) n = add_count v (m + n)"
  by (simp add: add_count_def split: option.splits entry.splits)

lemma add_count_zero [simp]: "add_count v 0 = v"
  by (simp add: add_count_def)

lemma count_step: "count (stats_step acc p) = count acc"
  by (simp add: stats_step_def Let_def)

lemma analyzedCount_step:
  "analyzedCount (stats_step acc p) = analyzedCount acc + (if analyzable p then 1 else 0)"
  by (simp add: stats_step_def Let_def counted_iff)

lemma shapes_step:
  "k \<notin> set object_prototype_members \<Longrightarrow>
   shapes (stats_step acc p) k =
     add_count (shapes acc k)
       (if analyzable p \<and> or_unknown (shape (the (analysis p))) = k then 1 else 0)"
  by (simp add: stats_step_def Let_def counted_iff increment_apply)

lemma colors_step:
  "k \<notin> set object_prototype_members \<Longrightarrow>
   colors (stats_step acc p) k =
     add_count (colors acc k)
       (if analyzable p \<and> or_unknown (color (the (analysis p))) = k then 1 else 0)"
  by (simp add: stats_step_def Let_def counted_iff increment_apply)

lemma transparencies_step:
  "k \<notin> set object_prototype_members \<Longrightarrow>
   transparencies (stats_step acc p) k =
     add_count (transparencies acc k)
       (if analyzable p \<and> or_unknown (transparency (the (analysis p))) = k then 1 else 0)"
  by (simp add: stats_step_def Let_def counted_iff increment_apply)

lemma foldl_count: "count (foldl stats_step acc ps) = count acc"
  by (induction ps arbitrary: acc) (simp_all add: count_step)

lemma foldl_analyzedCount:
  "analyzedCount (foldl stats_step acc ps) = analyzedCount acc + length (filter analyzable ps)"
  by (induction ps arbitrary: acc) (simp_all add: analyzedCount_step)

lemma foldl_shapes:
  assumes "k \<notin> set object_prototype_members"
  shows "shapes (foldl stats_step acc ps) k =
     add_count (shapes acc k)
       (length (filter (\<lambda>p. analyzable p \<and> or_unknown (shape (the (analysis p))) = k) ps))"
proof (induction ps arbitrary: acc)
  case Nil
  show ?case by simp
next
  case (Cons p ps)
  show ?case
    by (simp add: Cons shapes_step [OF assms] add_count_add)
qed

lemma foldl_colors:
  assumes "k \<notin> set object_prototype_members"
  shows "colors (foldl stats_step acc ps) k =
     add_count (colors acc k)
       (length (filter (\<lambda>p. analyzable p \<and> or_unknown (color (the (analysis p))) = k) ps))"
proof (induction ps arbitrary: acc)
  case Nil
  show ?case by simp
next
  case (Cons p ps)
  show ?case
    by (simp add: Cons colors_step [OF assms] add_count_add)
qed

lemma foldl_transparencies:
  assumes "k \<notin> set object_prototype_members"
  shows "transparencies (foldl stats_step acc ps) k =
     add_count (transparencies acc k)
       (length (filter (\<lambda>p. analyzable p \<and> or_unknown (transparency (the (analysis p))) = k) ps))"
proof (induction ps arbitrary: acc)
  case Nil
  show ?case by simp
next
  case (Cons p ps)
  show ?case
    by (simp add: Cons transparencies_step [OF assms] add_count_add)
qed

lemma add_count_None: "add_count None n = (if n = 0 then None else Some (Count n))"
  by (simp add: add_count_def)

text \<open>A particle that is not analyzable leaves the accumulated record as it is.\<close>

lemma foldl_none_analyzable:
  "filter analyzable ps = [] \<Longrightarrow> foldl stats_step acc ps = acc"
  by (induction ps arbitrary: acc) (simp_all add: stats_step_def counted_iff split: if_splits)

lemma tally_none: "filter analyzable ps = [] \<Longrightarrow> tally field ps k = None"
proof -
  assume "filter analyzable ps = []"
  then have "\<forall>p \<in> set ps. \<not> analyzable p"
    by (simp add: filter_empty_conv)
  then have "filter (\<lambda>p. analyzable p \<and> or_unknown (field (the (analysis p))) = k) ps = []"
    by (simp add: filter_empty_conv)
  then show ?thesis
    by (simp add: tally_def)
qed

lemma analysisStats_nonempty:
  "ps \<noteq> [] \<Longrightarrow>
   analysisStats ps =
     Some ((foldl stats_step (initial_stats (length ps)) ps)
            \<lparr>hasStats := analyzedCount (foldl stats_step (initial_stats (length ps)) ps) > 0\<rparr>)"
  by (simp add: analysisStats_def Let_def initial_stats_def)

text \<open>
  C8 (as amended). For a non-empty list of displayed particles \<^const>\<open>analysisStats\<close> is a
  record: \<open>count\<close> is the length of the list, \<open>analyzedCount\<close> the number of particles
  whose analysis is non-null, whose error is absent or empty, and whose shape is not
  "Not Analyzed"; \<open>hasStats\<close> is true exactly when \<open>analyzedCount > 0\<close>; under every label
  that is not the name of a member of \<^verbatim>\<open>Object.prototype\<close>, each of the shape, colour
  and transparency distributions holds the number of those particles that carry the
  label, and no entry when there is none; and with no such particle \<open>hasStats\<close> is false
  and the three distributions are empty. For the empty list the result is null.
\<close>

theorem stats_of_displayed_particles:
  "analysisStats [] = None \<and>
   (ps \<noteq> [] \<longrightarrow>
      (\<exists>st. analysisStats ps = Some st \<and>
            count st = length ps \<and>
            analyzedCount st = length (filter analyzable ps) \<and>
            (hasStats st \<longleftrightarrow> 0 < analyzedCount st) \<and>
            (\<forall>k. k \<notin> set object_prototype_members \<longrightarrow>
               shapes st k = map_option Count (tally shape ps k) \<and>
               colors st k = map_option Count (tally color ps k) \<and>
               transparencies st k = map_option Count (tally transparency ps k)) \<and>
            (filter analyzable ps = [] \<longrightarrow>
               \<not> hasStats st \<and> shapes st = Map.empty \<and> colors st = Map.empty
               \<and> transparencies st = Map.empty)))"
proof (intro conjI impI)
  show "analysisStats [] = None"
    by (simp add: analysisStats_def)
next
  assume ne: "ps \<noteq> []"
  define acc where "acc = foldl stats_step (initial_stats (length ps)) ps"
  define st where "st = acc\<lparr>hasStats := analyzedCount acc > 0\<rparr>"
  have some: "analysisStats ps = Some st"
    using ne by (simp add: analysisStats_nonempty st_def acc_def)
  have c: "count st = length ps"
    by (simp add: st_def acc_def foldl_count initial_stats_def)
  have n: "analyzedCount st = length (filter analyzable ps)"
    by (simp add: st_def acc_def foldl_analyzedCount initial_stats_def)
  have h: "hasStats st \<longleftrightarrow> 0 < analyzedCount st"
    by (simp add: st_def)
  have dist: "\<forall>k. k \<notin> set object_prototype_members \<longrightarrow>
               shapes st k = map_option Count (tally shape ps k) \<and>
               colors st k = map_option Count (tally color ps k) \<and>
               transparencies st k = map_option Count (tally transparency ps k)"
  proof (intro allI impI conjI)
    fix k assume k: "k \<notin> set object_prototype_members"
    show "shapes st k = map_option Count (tally shape ps k)"
      by (simp add: st_def acc_def foldl_shapes [OF k] initial_stats_def add_count_None tally_def)
    show "colors st k = map_option Count (tally color ps k)"
      by (simp add: st_def acc_def foldl_colors [OF k] initial_stats_def add_count_None tally_def)
    show "transparencies st k = map_option Count (tally transparency ps k)"
      by (simp add: st_def acc_def foldl_transparencies [OF k] initial_stats_def add_count_None
          tally_def)
  qed
  have floor: "filter analyzable ps = [] \<longrightarrow>
      \<not> hasStats st \<and> shapes st = Map.empty \<and> colors st = Map.empty
      \<and> transparencies st = Map.empty"
  proof
    assume none: "filter analyzable ps = []"
    then have "acc = initial_stats (length ps)"
      by (simp add: acc_def foldl_none_analyzable)
    with h n none
    show "\<not> hasStats st \<and> shapes st = Map.empty \<and> colors st = Map.empty
        \<and> transparencies st = Map.empty"
      by (simp add: st_def initial_stats_def)
  qed
  show "\<exists>st. analysisStats ps = Some st \<and>
            count st = length ps \<and>
            analyzedCount st = length (filter analyzable ps) \<and>
            (hasStats st \<longleftrightarrow> 0 < analyzedCount st) \<and>
            (\<forall>k. k \<notin> set object_prototype_members \<longrightarrow>
               shapes st k = map_option Count (tally shape ps k) \<and>
               colors st k = map_option Count (tally color ps k) \<and>
               transparencies st k = map_option Count (tally transparency ps k)) \<and>
            (filter analyzable ps = [] \<longrightarrow>
               \<not> hasStats st \<and> shapes st = Map.empty \<and> colors st = Map.empty
               \<and> transparencies st = Map.empty)"
    using some c n h dist floor by (intro exI [of _ st] conjI)
qed

lemma example_particles_analyzable:
  "filter analyzable example_particles =
     [spread_box (example_box (9/10)) 0 (Some (analysis_of ''Fiber'' None))]"
  by (simp add: example_particles_def analyzable_def analysis_of_def)

theorem stats_of_displayed_particles_witness:
  "\<exists>st. analysisStats example_particles = Some st \<and> count st = 4 \<and> analyzedCount st = 1 \<and>
        hasStats st \<and> shapes st ''Fiber'' = Some (Count 1) \<and> shapes st ''Parse Error'' = None \<and>
        transparencies st ''Unknown'' = Some (Count 1)"
proof -
  have ne: "example_particles \<noteq> []"
    by (simp add: example_particles_def)
  have len: "length example_particles = 4"
    by (simp add: example_particles_def)
  have fiber: "tally shape example_particles ''Fiber'' = Some 1"
    and parse: "tally shape example_particles ''Parse Error'' = None"
    and unknown: "tally transparency example_particles ''Unknown'' = Some 1"
    by (simp_all add: tally_def example_particles_def analyzable_def analysis_of_def
        or_unknown_def truthy_string_def)
  have k1: "''Fiber'' \<notin> set object_prototype_members"
    and k2: "''Parse Error'' \<notin> set object_prototype_members"
    and k3: "''Unknown'' \<notin> set object_prototype_members"
    by (simp_all add: object_prototype_members_def)
  from stats_of_displayed_particles [of example_particles, THEN conjunct2, THEN mp, OF ne]
  obtain st where st: "analysisStats example_particles = Some st \<and>
            count st = length example_particles \<and>
            analyzedCount st = length (filter analyzable example_particles) \<and>
            (hasStats st \<longleftrightarrow> 0 < analyzedCount st) \<and>
            (\<forall>k. k \<notin> set object_prototype_members \<longrightarrow>
               shapes st k = map_option Count (tally shape example_particles k) \<and>
               colors st k = map_option Count (tally color example_particles k) \<and>
               transparencies st k = map_option Count (tally transparency example_particles k)) \<and>
            (filter analyzable example_particles = [] \<longrightarrow>
               \<not> hasStats st \<and> shapes st = Map.empty \<and> colors st = Map.empty
               \<and> transparencies st = Map.empty)"
    ..
  note dist = st [THEN conjunct2, THEN conjunct2, THEN conjunct2, THEN conjunct2, THEN conjunct1]
  have f1: "analysisStats example_particles = Some st"
    and f2: "count st = 4" and f3: "analyzedCount st = 1" and f4: "hasStats st"
    using st by (simp_all add: len example_particles_analyzable)
  have f5: "shapes st ''Fiber'' = Some (Count 1)"
    using dist [THEN spec, of "''Fiber''", THEN mp, OF k1] by (simp add: fiber)
  have f6: "shapes st ''Parse Error'' = None"
    using dist [THEN spec, of "''Parse Error''", THEN mp, OF k2] by (simp add: parse)
  have f7: "transparencies st ''Unknown'' = Some (Count 1)"
    using dist [THEN spec, of "''Unknown''", THEN mp, OF k3] by (simp add: unknown)
  show ?thesis
    using f1 f2 f3 f4 f5 f6 f7 by (intro exI [of _ st] conjI)
qed

text \<open>
  A label that names a member of \<^verbatim>\<open>Object.prototype\<close> is not counted: the particle
  raises \<open>analyzedCount\<close>, and what is stored under the label is a string.
\<close>

lemma inherited_label_is_not_counted:
  "map_option (\<lambda>st. (analyzedCount st, shapes st ''constructor''))
     (analysisStats [spread_box (example_box (9/10)) 0 (Some (analysis_of ''constructor'' None))])
   = Some (1, Some Concatenation)"
proof -
  have member: "''constructor'' \<in> set object_prototype_members"
    by (simp add: object_prototype_members_def)
  have "increment Map.empty ''constructor'' ''constructor'' = Some Concatenation"
    using member by (simp add: increment_def)
  then show ?thesis
    by (simp add: analysisStats_def stats_step_def counted_def analysis_of_def truthy_string_def
        Let_def or_unknown_def)
qed

text \<open>
  Against the claim: over the empty list the result is null, not a record with
  \<open>hasStats = false\<close>; and a particle whose analysis has an error field holding the
  empty string is counted.
\<close>

theorem stats_counterexample:
  "analysisStats [] = None \<and>
   map_option analyzedCount
     (analysisStats [spread_box (example_box (9/10)) 0 (Some (analysis_of ''Fiber'' (Some [])))])
     = Some 1"
  by (simp add: analysisStats_def stats_step_def counted_def analysis_of_def truthy_string_def
      Let_def)

lemma count_analysisStats:
  "map_option count (analysisStats ps) = (if ps = [] then None else Some (length ps))"
  by (simp add: analysisStats_def Let_def foldl_count)

lemma analysisStats_count:
  assumes "analysisStats ps = Some st"
  shows "ps \<noteq> []" and "count st = length ps"
proof -
  from count_analysisStats [of ps] assms
  have eq: "Some (count st) = (if ps = [] then None else Some (length ps))"
    by simp
  then show "ps \<noteq> []"
    by (cases "ps = []") simp_all
  with eq show "count st = length ps"
    by simp
qed

text \<open>
  C10. When no particle passes the confidence threshold, the displayed list is empty and
  the statistics are null; the statistics are never a record with \<open>count = 0\<close>. So the
  branch of \<^verbatim>\<open>SummaryStats\<close> for a record with \<open>count = 0\<close> is never taken, and with
  detections but nothing displayed the component renders nothing.
\<close>

theorem stats_null_when_nothing_displayed:
  "((\<forall>b \<in> set (boundingBoxes s). confidence b < confidenceThreshold s) \<and>
    (\<forall>p \<in> set (analyzedParticles s). confidence p < confidenceThreshold s) \<longrightarrow>
      particlesToDisplay s = []) \<and>
   (particlesToDisplay s = [] \<longrightarrow> analysisStats (particlesToDisplay s) = None) \<and>
   (\<forall>st. analysisStats ps = Some st \<longrightarrow> 0 < count st) \<and>
   SummaryStats (analysisStats ps) detected processing \<noteq> NoneMeetThreshold \<and>
   (0 < detected \<longrightarrow> SummaryStats (analysisStats []) detected processing = RendersNothing)"
proof (intro conjI impI allI)
  assume low: "(\<forall>b \<in> set (boundingBoxes s). confidence b < confidenceThreshold s) \<and>
    (\<forall>p \<in> set (analyzedParticles s). confidence p < confidenceThreshold s)"
  have "filter (\<lambda>p. confidenceThreshold s \<le> confidence p) (analyzedParticles s) = []"
    using low by (auto simp: filter_empty_conv)
  moreover have "filter (\<lambda>p. confidenceThreshold s \<le> confidence p)
      (map (\<lambda>(i, box). spread_box box i (None :: ParticleAnalysis option))
         (List.enumerate 0 (boundingBoxes s))) = []"
  proof -
    have "\<not> confidenceThreshold s \<le>
        confidence (spread_box (snd x) (fst x) (None :: ParticleAnalysis option))"
      if "x \<in> set (List.enumerate 0 (boundingBoxes s))" for x :: "nat \<times> BoundingBox"
    proof -
      from that have "fst x < length (boundingBoxes s)" "snd x = boundingBoxes s ! fst x"
        by (simp_all add: in_set_enumerate_eq)
      then have "snd x \<in> set (boundingBoxes s)"
        by simp
      with low have "confidence (snd x) < confidenceThreshold s"
        by simp
      then show ?thesis by simp
    qed
    then show ?thesis
      by (simp add: filter_empty_conv split_beta)
  qed
  ultimately show "particlesToDisplay s = []"
    by (simp add: particlesToDisplay_def Let_def)
next
  assume "particlesToDisplay s = []"
  then show "analysisStats (particlesToDisplay s) = None"
    by (simp add: analysisStats_def)
next
  fix st assume "analysisStats ps = Some st"
  then have "ps \<noteq> []" and "count st = length ps"
    by (rule analysisStats_count)+
  then show "0 < count st"
    by simp
next
  show "SummaryStats (analysisStats ps) detected processing \<noteq> NoneMeetThreshold"
  proof (cases "analysisStats ps")
    case None
    then show ?thesis by (simp add: SummaryStats_def)
  next
    case (Some st)
    then have "ps \<noteq> []" and "count st = length ps"
      by (rule analysisStats_count)+
    then have "count st \<noteq> 0"
      by simp
    with Some show ?thesis by (simp add: SummaryStats_def)
  qed
next
  assume "0 < detected"
  then show "SummaryStats (analysisStats []) detected processing = RendersNothing"
    by (simp add: SummaryStats_def analysisStats_def)
qed

theorem stats_null_when_nothing_displayed_witness:
  "particlesToDisplay (example_state (1/2) [example_box (3/10)] []) = [] \<and>
   analysisStats (particlesToDisplay (example_state (1/2) [example_box (3/10)] [])) = None \<and>
   SummaryStats (analysisStats (particlesToDisplay (example_state (1/2) [example_box (3/10)] [])))
     1 False = RendersNothing"
proof -
  let ?s = "example_state (1/2) [example_box (3/10)] []"
  note t = stats_null_when_nothing_displayed [of ?s "[]" 1 False]
  have low: "(\<forall>b \<in> set (boundingBoxes ?s). confidence b < confidenceThreshold ?s) \<and>
    (\<forall>p \<in> set (analyzedParticles ?s). confidence p < confidenceThreshold ?s)"
    by (simp add: example_state_def example_box_def)
  have empty: "particlesToDisplay ?s = []"
    using t [THEN conjunct1, THEN mp, OF low] .
  moreover have "analysisStats (particlesToDisplay ?s) = None"
    using t [THEN conjunct2, THEN conjunct1, THEN mp, OF empty] .
  moreover have "SummaryStats (analysisStats []) 1 False = RendersNothing"
    using t by simp
  ultimately show ?thesis by simp
qed

section \<open>Failures of the characterization phase\<close>

lemma length_fallbackParticles: "length (fallbackParticles bs) = length bs"
  by (simp add: fallbackParticles_def)

lemma nth_fallbackParticles:
  "i < length bs \<Longrightarrow> fallbackParticles bs ! i = spread_box (bs ! i) i parse_error_analysis"
  by (simp add: fallbackParticles_def nth_enumerate_eq)

text \<open>Before any analysis is stored, the display shows the detected boxes themselves.\<close>

lemma particlesToDisplay_unanalyzed:
  "analyzedParticles s = [] \<Longrightarrow>
   particlesToDisplay s =
     filter (\<lambda>p. confidenceThreshold s \<le> confidence p)
       (map (\<lambda>(i, box). spread_box box i (None :: ParticleAnalysis option))
          (List.enumerate 0 (boundingBoxes s)))"
  by (simp add: particlesToDisplay_def Let_def)


lemma boxes_of_unanalyzed:
  "map box_of (filter (\<lambda>p. thr \<le> confidence p)
      (map (\<lambda>(i, box). spread_box box i a) (List.enumerate n bs))) =
   boxesAboveThreshold thr bs"
  by (induction bs arbitrary: n) (simp_all add: boxesAboveThreshold_def)

lemma unanalyzed_member:
  assumes "analyzedParticles s = []" and "p \<in> set (particlesToDisplay s)"
  shows "analysis p = None" and "index p < length (boundingBoxes s)"
    and "box_of p = boundingBoxes s ! index p"
proof -
  from assms obtain x where x: "x \<in> set (List.enumerate 0 (boundingBoxes s))"
      and p: "p = spread_box (snd x) (fst x) None"
    by (auto simp: particlesToDisplay_unanalyzed)
  from x have "fst x < length (boundingBoxes s)" "snd x = boundingBoxes s ! fst x"
    by (simp_all add: in_set_enumerate_eq)
  with p show "analysis p = None" and "index p < length (boundingBoxes s)"
    and "box_of p = boundingBoxes s ! index p"
    by simp_all
qed

lemma settle_failed:
  "analysis_failed outcome \<Longrightarrow>
   \<exists>message. startAnalysis_settle outcome s = startAnalysis_catch message s"
  by (cases outcome) (auto simp: startAnalysis_settle_def split: option.splits)

lemma catch_fields:
  "analyzedParticles (startAnalysis_catch message s) = []"
  "boundingBoxes (startAnalysis_catch message s) = boundingBoxes s"
  "confidenceThreshold (startAnalysis_catch message s) = confidenceThreshold s"
  "errorState (startAnalysis_catch message s) = errorState s"
  "capturedImage (startAnalysis_catch message s) = capturedImage s"
  "isAnalyzing (startAnalysis_catch message s) = False"
  "analysisErrorState (startAnalysis_catch message s) = Some (''Analysis Error: '' @ message)"
  by (simp_all add: startAnalysis_catch_def)

lemma POST_parse_failure:
  "parseResponse json_parse responseText = Inl e \<Longrightarrow> bs \<noteq> [] \<Longrightarrow>
   POST json_parse bs (GeminiText responseText) =
     \<lparr>status = 200, body_error = Some ''AI analysis completed, but response parsing failed.'',
      body_particles = Some (fallbackParticles bs)\<rparr>"
  by (simp add: POST_def)

text \<open>
  C4 (as amended). No failure of the characterization phase aborts the pipeline, and the
  detection geometry stays visible, in one of two ways. When the server cannot parse the
  model's reply (no array found, malformed JSON, not an array) it answers with status 200
  and every original box, in order, carrying the analysis \<^verbatim>\<open>{shape:"Parse Error",
  color:"Parse Error", transparency:"Parse Error", error:"Could not parse AI analysis
  response."}\<close>, and the client stores these particles. When the call itself fails (network
  error, a reply that is not JSON, a response that is not ok, a body without particles)
  the client stores no analysis at all: it records an analysis error, keeps the detected
  boxes and the detection error state, and displays the boxes that pass the threshold
  with a null analysis.
\<close>

theorem characterization_failures:
  "(parseResponse json_parse responseText = Inl e \<and> bs \<noteq> [] \<longrightarrow>
      status (POST json_parse bs (GeminiText responseText)) = 200 \<and>
      body_particles (POST json_parse bs (GeminiText responseText)) = Some (fallbackParticles bs)) \<and>
   length (fallbackParticles bs) = length bs \<and>
   (\<forall>i < length bs.
      box_of (fallbackParticles bs ! i) = bs ! i \<and> index (fallbackParticles bs ! i) = i \<and>
      analysis (fallbackParticles bs ! i) = parse_error_analysis) \<and>
   (data_particles d = Some ps \<longrightarrow>
      analyzedParticles (startAnalysis_settle (JsonBody True status_text d) s) = ps \<and>
      boundingBoxes (startAnalysis_settle (JsonBody True status_text d) s) = boundingBoxes s) \<and>
   (analysis_failed outcome \<longrightarrow>
      analyzedParticles (startAnalysis_settle outcome s) = [] \<and>
      analysisErrorState (startAnalysis_settle outcome s) \<noteq> None \<and>
      \<not> isAnalyzing (startAnalysis_settle outcome s) \<and>
      errorState (startAnalysis_settle outcome s) = errorState s \<and>
      boundingBoxes (startAnalysis_settle outcome s) = boundingBoxes s \<and>
      map box_of (particlesToDisplay (startAnalysis_settle outcome s)) =
        boxesAboveThreshold (confidenceThreshold s) (boundingBoxes s) \<and>
      (\<forall>p \<in> set (particlesToDisplay (startAnalysis_settle outcome s)). analysis p = None))"
proof (intro conjI impI allI ballI)
  assume "parseResponse json_parse responseText = Inl e \<and> bs \<noteq> []"
  then have post: "POST json_parse bs (GeminiText responseText) =
     \<lparr>status = 200, body_error = Some ''AI analysis completed, but response parsing failed.'',
      body_particles = Some (fallbackParticles bs)\<rparr>"
    by (simp add: POST_parse_failure)
  show "status (POST json_parse bs (GeminiText responseText)) = 200"
    by (simp add: post)
  show "body_particles (POST json_parse bs (GeminiText responseText)) = Some (fallbackParticles bs)"
    by (simp add: post)
next
  show "length (fallbackParticles bs) = length bs"
    by (rule length_fallbackParticles)
next
  fix i assume i: "i < length bs"
  show "box_of (fallbackParticles bs ! i) = bs ! i"
    using i by (simp add: nth_fallbackParticles)
  show "index (fallbackParticles bs ! i) = i"
    using i by (simp add: nth_fallbackParticles)
  show "analysis (fallbackParticles bs ! i) = parse_error_analysis"
    using i by (simp add: nth_fallbackParticles)
next
  assume some: "data_particles d = Some ps"
  show "analyzedParticles (startAnalysis_settle (JsonBody True status_text d) s) = ps"
    using some by (simp add: startAnalysis_settle_def Let_def)
  show "boundingBoxes (startAnalysis_settle (JsonBody True status_text d) s) = boundingBoxes s"
    using some by (simp add: startAnalysis_settle_def Let_def)
next
  assume "analysis_failed outcome"
  then obtain message where m: "startAnalysis_settle outcome s = startAnalysis_catch message s"
    using settle_failed by blast
  show "analyzedParticles (startAnalysis_settle outcome s) = []"
    and "analysisErrorState (startAnalysis_settle outcome s) \<noteq> None"
    and "\<not> isAnalyzing (startAnalysis_settle outcome s)"
    and "errorState (startAnalysis_settle outcome s) = errorState s"
    and "boundingBoxes (startAnalysis_settle outcome s) = boundingBoxes s"
    by (simp_all add: m catch_fields)
  have empty: "analyzedParticles (startAnalysis_catch message s) = []"
    by (rule catch_fields)
  show "map box_of (particlesToDisplay (startAnalysis_settle outcome s)) =
      boxesAboveThreshold (confidenceThreshold s) (boundingBoxes s)"
    by (simp add: m particlesToDisplay_unanalyzed [OF empty] boxes_of_unanalyzed catch_fields)
  fix p assume "p \<in> set (particlesToDisplay (startAnalysis_settle outcome s))"
  then have "p \<in> set (particlesToDisplay (startAnalysis_catch message s))"
    by (simp add: m)
  with empty show "analysis p = None"
    by (rule unanalyzed_member)
qed

lemma extraction_without_bracket:
  "open_bracket \<notin> set t \<or> close_bracket \<notin> set t \<Longrightarrow> extractionAttempt t = Inl NoArrayFound"
  by (auto simp: extractionAttempt_def Let_def indexOf_absent_iff lastIndexOf_absent_iff)

lemma no_array_in_prose: "parseResponse json_parse ''I cannot see any particle.'' = Inl NoArrayFound"
proof -
  have "open_bracket \<notin> set ''I cannot see any particle.''"
    by (simp add: open_bracket_def)
  then have "extractionAttempt ''I cannot see any particle.'' = Inl NoArrayFound"
    by (intro extraction_without_bracket disjI1)
  then show ?thesis
    by (simp only: parseResponse_def sum.case)
qed

lemma analysing_state_fields:
  "boundingBoxes analysing_state = example_boxes"
  "confidenceThreshold analysing_state = 3/4"
  "analyzedParticles analysing_state = []"
  by (simp_all add: analysing_state_def startAnalysis_begin_def example_state_def)

lemma example_boxes_above: "boxesAboveThreshold (3/4) example_boxes = [example_box (9/10), example_box (4/5)]"
  by (simp add: boxesAboveThreshold_def example_boxes_def example_box_def)

theorem characterization_failures_witness:
  "body_particles (POST (\<lambda>text. None) example_boxes (GeminiText ''I cannot see any particle.'')) =
     Some (fallbackParticles example_boxes) \<and>
   analysis (fallbackParticles example_boxes ! 2) = parse_error_analysis \<and>
   analyzedParticles (startAnalysis_settle
      (JsonBody True ''200'' \<lparr>data_error = None, data_particles = Some example_particles\<rparr>)
      analysing_state) = example_particles \<and>
   analyzedParticles (startAnalysis_settle (AnalysisRejected ''Failed to fetch'') analysing_state) = [] \<and>
   map box_of (particlesToDisplay
      (startAnalysis_settle (AnalysisRejected ''Failed to fetch'') analysing_state)) =
     [example_box (9/10), example_box (4/5)]"
proof -
  note t = characterization_failures [where json_parse = "\<lambda>text. None"
      and responseText = "''I cannot see any particle.''" and e = NoArrayFound
      and bs = example_boxes
      and d = "\<lparr>data_error = None, data_particles = Some example_particles\<rparr>"
      and ps = example_particles and status_text = "''200''" and s = analysing_state
      and outcome = "AnalysisRejected ''Failed to fetch''"]
  have h1: "parseResponse (\<lambda>text. None) ''I cannot see any particle.'' = Inl NoArrayFound
      \<and> example_boxes \<noteq> []"
    by (simp add: no_array_in_prose example_boxes_def)
  have h2: "2 < length example_boxes"
    by (simp add: example_boxes_def)
  have h3: "data_particles \<lparr>data_error = None, data_particles = Some example_particles\<rparr> =
      Some example_particles"
    by simp
  have h4: "analysis_failed (AnalysisRejected ''Failed to fetch'')"
    by simp
  note c1 = t [THEN conjunct1, THEN mp, OF h1, THEN conjunct2]
  note c3 = t [THEN conjunct2, THEN conjunct2, THEN conjunct1, THEN spec, of 2, THEN mp, OF h2,
      THEN conjunct2, THEN conjunct2]
  note c4 = t [THEN conjunct2, THEN conjunct2, THEN conjunct2, THEN conjunct1, THEN mp, OF h3,
      THEN conjunct1]
  note c5 = t [THEN conjunct2, THEN conjunct2, THEN conjunct2, THEN conjunct2, THEN mp, OF h4]
  have c6: "map box_of (particlesToDisplay
      (startAnalysis_settle (AnalysisRejected ''Failed to fetch'') analysing_state)) =
     [example_box (9/10), example_box (4/5)]"
    using c5 by (simp add: analysing_state_fields example_boxes_above)
  from c1 c3 c4 c5 [THEN conjunct1] c6 show ?thesis
    by (intro conjI)
qed

text \<open>
  After a network error the displayed boxes carry a null analysis, not the "Parse Error"
  analysis, and no analysed particle is stored.
\<close>

theorem network_error_counterexample:
  "map analysis (particlesToDisplay
      (startAnalysis_settle (AnalysisRejected ''Failed to fetch'') analysing_state)) = [None, None] \<and>
   analyzedParticles (startAnalysis_settle (AnalysisRejected ''Failed to fetch'') analysing_state) = []"
  by (simp add: startAnalysis_settle_def startAnalysis_catch_def analysing_state_def
      startAnalysis_begin_def example_state_def particlesToDisplay_def Let_def
      example_boxes_def example_box_def spread_box_def)

section \<open>Which index a particle carries\<close>









section \<open>Results of an earlier submission\<close>

lemma submitImage_fields:
  "analyzedParticles (submitImage img s) = []"
  "boundingBoxes (submitImage img s) = []"
  "capturedImage (submitImage img s) = Some img"
  "isDetecting (submitImage img s) = True"
  "isAnalyzing (submitImage img s) = False"
  "confidenceThreshold (submitImage img s) = confidenceThreshold s"
  by (simp_all add: submitImage_def startDetection_begin_def resetAnalysisState_def)

lemma settle_success_fields:
  assumes "data_particles d = Some ps"
  shows "analyzedParticles (startAnalysis_settle (JsonBody True status_text d) s) = ps"
    and "boundingBoxes (startAnalysis_settle (JsonBody True status_text d) s) = boundingBoxes s"
    and "capturedImage (startAnalysis_settle (JsonBody True status_text d) s) = capturedImage s"
    and "confidenceThreshold (startAnalysis_settle (JsonBody True status_text d) s) =
      confidenceThreshold s"
  using assms by (simp_all add: startAnalysis_settle_def Let_def)

text \<open>Only a submission changes the image that is held.\<close>

lemma detection_settle_keeps_image:
  "capturedImage (fst (startDetection_settle thr outcome s)) = capturedImage s"
proof (cases outcome)
  case (DetectionThrows message)
  then show ?thesis
    by (simp add: startDetection_settle_def startDetection_catch_def)
next
  case (DetectionData detectionData)
  then show ?thesis
    by (cases "processRoboflowResults detectionData")
      (simp_all add: startDetection_settle_def startDetection_catch_def Let_def
        startAnalysis_begin_def)
qed

lemma analysis_settle_keeps_image:
  "capturedImage (startAnalysis_settle outcome s) = capturedImage s"
proof (cases outcome)
  case (AnalysisRejected message)
  then show ?thesis
    by (simp add: startAnalysis_settle_def startAnalysis_catch_def)
next
  case (NonJsonBody status_text)
  then show ?thesis
    by (simp add: startAnalysis_settle_def startAnalysis_catch_def)
next
  case (JsonBody ok status_text d)
  then show ?thesis
    by (cases "data_particles d")
      (simp_all add: startAnalysis_settle_def startAnalysis_catch_def Let_def)
qed

lemma step_keeps_image: "\<not> is_submit e \<Longrightarrow> capturedImage (step s e) = capturedImage s"
  by (cases e) (simp_all add: detection_settle_keeps_image analysis_settle_keeps_image)

lemma steps_keep_image:
  "\<forall>e \<in> set events. \<not> is_submit e \<Longrightarrow> capturedImage (foldl step s events) = capturedImage s"
  by (induction events arbitrary: s) (simp_all add: step_keeps_image)

text \<open>
  C2 (as amended). If a second image is submitted while the first image's
  characterization call is still outstanding, the first call's eventual successful result
  is stored as the analysed particles when it arrives, with the second image held,
  whatever detections or analyses settle in between: no asynchronous step carries a
  generation token and no result is dropped as stale. A successful result is stored in
  whatever state it arrives and leaves the held image and its boxes as they are; a
  submission clears the boxes and the analysed particles at the moment it starts.
\<close>

theorem results_are_stored_unconditionally:
  "(data_particles d = Some ps \<longrightarrow>
      analyzedParticles (startAnalysis_settle (JsonBody True status_text d) s) = ps \<and>
      capturedImage (startAnalysis_settle (JsonBody True status_text d) s) = capturedImage s \<and>
      boundingBoxes (startAnalysis_settle (JsonBody True status_text d) s) = boundingBoxes s) \<and>
   analyzedParticles (submitImage img s) = [] \<and>
   boundingBoxes (submitImage img s) = [] \<and>
   capturedImage (submitImage img s) = Some img \<and>
   (data_particles d = Some ps \<and> (\<forall>e \<in> set later. \<not> is_submit e) \<longrightarrow>
      analyzedParticles
        (foldl step s (Submit img # later @ [AnalysisSettled (JsonBody True status_text d)])) = ps \<and>
      capturedImage
        (foldl step s (Submit img # later @ [AnalysisSettled (JsonBody True status_text d)])) =
        Some img)"
proof (intro conjI impI)
  assume some: "data_particles d = Some ps"
  show "analyzedParticles (startAnalysis_settle (JsonBody True status_text d) s) = ps"
    using some by (rule settle_success_fields)
  show "capturedImage (startAnalysis_settle (JsonBody True status_text d) s) = capturedImage s"
    using some by (rule settle_success_fields)
  show "boundingBoxes (startAnalysis_settle (JsonBody True status_text d) s) = boundingBoxes s"
    using some by (rule settle_success_fields)
next
  show "analyzedParticles (submitImage img s) = []"
    and "boundingBoxes (submitImage img s) = []"
    and "capturedImage (submitImage img s) = Some img"
    by (simp_all add: submitImage_fields)
next
  assume a: "data_particles d = Some ps \<and> (\<forall>e \<in> set later. \<not> is_submit e)"
  have run: "foldl step s (Submit img # later @ [AnalysisSettled (JsonBody True status_text d)]) =
      startAnalysis_settle (JsonBody True status_text d) (foldl step (submitImage img s) later)"
    by simp
  have "capturedImage (foldl step (submitImage img s) later) = capturedImage (submitImage img s)"
    using a [THEN conjunct2] by (rule steps_keep_image)
  then have held: "capturedImage (foldl step (submitImage img s) later) = Some img"
    by (simp add: submitImage_fields)
  show "analyzedParticles
      (foldl step s (Submit img # later @ [AnalysisSettled (JsonBody True status_text d)])) = ps"
    unfolding run using a [THEN conjunct1] by (rule settle_success_fields)
  show "capturedImage
      (foldl step s (Submit img # later @ [AnalysisSettled (JsonBody True status_text d)])) =
      Some img"
    unfolding run by (simp only: analysis_settle_keeps_image held)
qed

text \<open>
  Two submissions. The first image holds one box, \<^term>\<open>example_box (9/10)\<close>; the second
  image holds one box, \<^const>\<open>wide_box\<close>.
\<close>

lemma first_detection:
  "processRoboflowResults (detector_reply (Some 200) (Some 100)) = Inr [example_box (9/10)]"
  by (simp add: process_detector_reply example_box_def)

lemma second_detection:
  "processRoboflowResults (detector_reply (Some 400) (Some 400)) = Inr [wide_box]"
  by (simp add: process_detector_reply wide_box_def)

lemma detection_settle_with_box:
  assumes "processRoboflowResults detectionData = Inr [b]" and "thr \<le> confidence b"
  shows "startDetection_settle thr (DetectionData detectionData) s =
      (startAnalysis_begin (s\<lparr>boundingBoxes := [b]\<rparr>), Some [b])"
  using assms by (simp add: startDetection_settle_def boxesAboveThreshold_def Let_def)

lemma state_before_stale_result:
  "run [Submit ''first'',
      DetectionSettled (1/2) (DetectionData (detector_reply (Some 200) (Some 100))),
      Submit ''second'',
      DetectionSettled (1/2) (DetectionData (detector_reply (Some 400) (Some 400)))] =
   startAnalysis_begin ((submitImage ''second''
     (startAnalysis_begin ((submitImage ''first'' initial_state)
        \<lparr>boundingBoxes := [example_box (9/10)]\<rparr>)))\<lparr>boundingBoxes := [wide_box]\<rparr>)"
proof -
  have a: "(1/2 :: real) \<le> confidence (example_box (9/10))"
    by (simp add: example_box_def)
  have b: "(1/2 :: real) \<le> confidence wide_box"
    by (simp add: wide_box_def)
  show ?thesis
    by (simp add: run_def detection_settle_with_box [OF first_detection a]
        detection_settle_with_box [OF second_detection b])
qed

text \<open>
  The first image is submitted and its detection settles, which starts its
  characterization call; then the second image is submitted, its detection settles, and
  the result of the first call arrives.
\<close>

theorem results_are_stored_unconditionally_witness:
  "analyzedParticles
     (foldl step
        (run [Submit ''first'',
              DetectionSettled (1/2) (DetectionData (detector_reply (Some 200) (Some 100)))])
        (Submit ''second''
           # [DetectionSettled (1/2) (DetectionData (detector_reply (Some 400) (Some 400)))]
           @ [AnalysisSettled (JsonBody True ''200''
                \<lparr>data_error = None, data_particles = Some first_result\<rparr>)])) = first_result \<and>
   capturedImage
     (foldl step
        (run [Submit ''first'',
              DetectionSettled (1/2) (DetectionData (detector_reply (Some 200) (Some 100)))])
        (Submit ''second''
           # [DetectionSettled (1/2) (DetectionData (detector_reply (Some 400) (Some 400)))]
           @ [AnalysisSettled (JsonBody True ''200''
                \<lparr>data_error = None, data_particles = Some first_result\<rparr>)])) = Some ''second''"
proof -
  have h: "data_particles \<lparr>data_error = None, data_particles = Some first_result\<rparr> =
        Some first_result \<and>
      (\<forall>e \<in> set [DetectionSettled (1/2) (DetectionData (detector_reply (Some 400) (Some 400)))].
         \<not> is_submit e)"
    by simp
  show ?thesis
    using results_are_stored_unconditionally [where
        d = "\<lparr>data_error = None, data_particles = Some first_result\<rparr>" and ps = first_result
        and status_text = "''200''" and img = "''second''"
        and s = "run [Submit ''first'',
              DetectionSettled (1/2) (DetectionData (detector_reply (Some 200) (Some 100)))]"
        and later = "[DetectionSettled (1/2) (DetectionData (detector_reply (Some 400) (Some 400)))]",
        THEN conjunct2, THEN conjunct2, THEN conjunct2, THEN conjunct2, THEN mp, OF h] .
qed

text \<open>
  After the two overlapping submissions the page holds the second image and its box, and
  the analysed particles, which are what is displayed, are those of the first image.
\<close>

theorem stale_result_counterexample:
  "capturedImage (run overlapping_submissions) = Some ''second'' \<and>
   boundingBoxes (run overlapping_submissions) = [wide_box] \<and>
   analyzedParticles (run overlapping_submissions) = first_result \<and>
   map box_of (particlesToDisplay (run overlapping_submissions)) = [example_box (9/10)]"
proof -
  define before where "before = run [Submit ''first'',
      DetectionSettled (1/2) (DetectionData (detector_reply (Some 200) (Some 100))),
      Submit ''second'',
      DetectionSettled (1/2) (DetectionData (detector_reply (Some 400) (Some 400)))]"
  define final where "final = startAnalysis_settle
      (JsonBody True ''200'' \<lparr>data_error = None, data_particles = Some first_result\<rparr>) before"
  have run: "run overlapping_submissions = final"
    by (simp add: run_def overlapping_submissions_def final_def before_def)
  have before: "capturedImage before = Some ''second''" "boundingBoxes before = [wide_box]"
      "confidenceThreshold before = 1/2"
    unfolding before_def state_before_stale_result
    by (simp_all add: startAnalysis_begin_def submitImage_fields initial_state_def)
  have some: "data_particles \<lparr>data_error = None, data_particles = Some first_result\<rparr> =
      Some first_result"
    by simp
  have final: "capturedImage final = Some ''second''" "boundingBoxes final = [wide_box]"
      "analyzedParticles final = first_result" "confidenceThreshold final = 1/2"
    unfolding final_def by (simp_all add: settle_success_fields [OF some] before)
  have "particlesToDisplay final = first_result"
    by (simp add: particlesToDisplay_def Let_def final first_result_def example_box_def
        spread_box_def)
  then have "map box_of (particlesToDisplay final) = [example_box (9/10)]"
    by (simp add: first_result_def)
  with final show ?thesis
    by (simp add: run)
qed

text \<open>
  In that state the second image's call is still outstanding, yet the flags that disable
  the controls are down: the \<^verbatim>\<open>finally\<close> of the first call has cleared \<open>isAnalyzing\<close>.
\<close>

lemma flags_down_after_stale_result:
  "\<not> isProcessing (run overlapping_submissions) \<and> \<not> clear_disabled (run overlapping_submissions)"
proof -
  have "run overlapping_submissions = startAnalysis_settle
      (JsonBody True ''200'' \<lparr>data_error = None, data_particles = Some first_result\<rparr>)
      (run [Submit ''first'',
        DetectionSettled (1/2) (DetectionData (detector_reply (Some 200) (Some 100))),
        Submit ''second'',
        DetectionSettled (1/2) (DetectionData (detector_reply (Some 400) (Some 400)))])"
    by (simp add: run_def overlapping_submissions_def)
  then show ?thesis
    by (simp add: state_before_stale_result startAnalysis_settle_def Let_def
        startAnalysis_begin_def isProcessing_def clear_disabled_def)
qed

end
